theory Spec2Isabelle
  imports Main "HOL-Library.Sublist"
begin

text \<open>
  The Windows OS mount tools of Coriolis (\<^verbatim>\<open>coriolis/osmorphing/osmount/windows.py\<close>): the
  class \<^verbatim>\<open>WindowsMountTools\<close> drives a worker machine through a WinRM connection, brings
  its disks online, finds the root of the Windows installation to migrate, and sets the
  disks offline again. The methods are modelled as functions from the state of the
  machine to what they return or raise, the new state, and the events they caused: the
  commands sent, the log records, the sleeps. The properties below are proved for every
  machine, that is for every behaviour of the connection.
\<close>

section \<open>Python strings\<close>

text \<open>
  Python strings are modelled as HOL strings, that is lists of 8-bit characters: the
  model covers the code points below 256. The character classes below are the ones
  Python uses for such code points.
\<close>

definition CR :: char where
  "CR = CHR 0x0D"

definition LF :: char where
  "LF = CHR 0x0A"

definition CRLF :: string where
  "CRLF = [CR, LF]"

definition BSL :: char where
  "BSL = CHR 0x5C"

definition QUOTE :: char where
  "QUOTE = CHR 0x27"

definition DQUOTE :: char where
  "DQUOTE = CHR 0x22"

text \<open>\<^verbatim>\<open>str.isspace\<close> on one character, which is also the class \<^verbatim>\<open>\s\<close> of \<^verbatim>\<open>re\<close>.\<close>

definition is_space :: "char \<Rightarrow> bool" where
  "is_space c =
     (let n = (of_char c :: nat)
      in (9 \<le> n \<and> n \<le> 13) \<or> (28 \<le> n \<and> n \<le> 32) \<or> n = 133 \<or> n = 160)"

text \<open>The class \<^verbatim>\<open>[0-9]\<close> of \<^verbatim>\<open>re\<close>.\<close>

definition is_digit :: "char \<Rightarrow> bool" where
  "is_digit c = (let n = (of_char c :: nat) in 48 \<le> n \<and> n \<le> 57)"

text \<open>\<^verbatim>\<open>str.isnumeric\<close> on one character: the digits, the superscripts and the fractions.\<close>

definition is_numeric_char :: "char \<Rightarrow> bool" where
  "is_numeric_char c =
     (let n = (of_char c :: nat)
      in (48 \<le> n \<and> n \<le> 57) \<or> n = 178 \<or> n = 179 \<or> n = 185 \<or> (188 \<le> n \<and> n \<le> 190))"

definition isnumeric :: "string \<Rightarrow> bool" where
  "isnumeric s = (s \<noteq> [] \<and> list_all is_numeric_char s)"

text \<open>The line boundaries of \<^verbatim>\<open>str.splitlines\<close>.\<close>

definition is_linebreak :: "char \<Rightarrow> bool" where
  "is_linebreak c =
     (let n = (of_char c :: nat)
      in (10 \<le> n \<and> n \<le> 13) \<or> (28 \<le> n \<and> n \<le> 30) \<or> n = 133)"

text \<open>
  \<^verbatim>\<open>s.split(sep)\<close> for a non-empty separator: the pieces between the occurrences of
  \<^verbatim>\<open>sep\<close>, found from the left without overlap. The accumulator holds the current
  piece reversed.
\<close>

function split_aux :: "string \<Rightarrow> string \<Rightarrow> string \<Rightarrow> string list" where
  "split_aux sep acc [] = [rev acc]"
| "split_aux sep acc (c # cs) =
     (if sep \<noteq> [] \<and> prefix sep (c # cs)
      then rev acc # split_aux sep [] (drop (length sep) (c # cs))
      else split_aux sep (c # acc) cs)"
  by pat_completeness auto
termination
  by (relation "measure (\<lambda>(sep, acc, s). length s)") auto

definition split_on :: "string \<Rightarrow> string \<Rightarrow> string list" where
  "split_on sep s = split_aux sep [] s"

text \<open>\<^verbatim>\<open>s.splitlines()\<close>: no piece for an empty remainder, \<^verbatim>\<open>\r\n\<close> is one boundary.\<close>

fun splitlines_aux :: "string \<Rightarrow> string \<Rightarrow> string list" where
  "splitlines_aux acc [] = (if acc = [] then [] else [rev acc])"
| "splitlines_aux acc [c] =
     (if is_linebreak c then [rev acc] else [rev (c # acc)])"
| "splitlines_aux acc (c # d # cs) =
     (if is_linebreak c
      then rev acc # (if c = CR \<and> d = LF then splitlines_aux [] cs
                      else splitlines_aux [] (d # cs))
      else splitlines_aux (c # acc) (d # cs))"

definition splitlines :: "string \<Rightarrow> string list" where
  "splitlines s = splitlines_aux [] s"

text \<open>\<^verbatim>\<open>s.split()\<close>: the maximal runs of characters that are not whitespace.\<close>

fun split_ws_aux :: "string \<Rightarrow> string \<Rightarrow> string list" where
  "split_ws_aux acc [] = (if acc = [] then [] else [rev acc])"
| "split_ws_aux acc (c # cs) =
     (if is_space c
      then (if acc = [] then split_ws_aux [] cs else rev acc # split_ws_aux [] cs)
      else split_ws_aux (c # acc) cs)"

definition split_ws :: "string \<Rightarrow> string list" where
  "split_ws s = split_ws_aux [] s"

text \<open>
  \<^verbatim>\<open>bytes(s, 'utf-8')\<close> for code points below 256: one byte below 128, two bytes
  from 128 on.
\<close>

definition utf8_char :: "char \<Rightarrow> string" where
  "utf8_char c =
     (let n = (of_char c :: nat)
      in if n < 128 then [c]
         else [char_of (192 + n div 64), char_of (128 + n mod 64)])"

definition utf8 :: "string \<Rightarrow> string" where
  "utf8 s = concat (map utf8_char s)"

section \<open>Exceptions\<close>

text \<open>
  Modelled from the spec: the exception classes of \<^verbatim>\<open>coriolis.exception\<close>, which the
  module imports. The remote session fails with a typed remote-execution error that
  tells "not authorized" from every other failure; \<^verbatim>\<open>check_os\<close> re-raises
  \<^verbatim>\<open>NotAuthorized\<close> before its \<^verbatim>\<open>except CoriolisException\<close> clause, so
  \<^verbatim>\<open>NotAuthorized\<close> is a \<^verbatim>\<open>CoriolisException\<close>, as \<^verbatim>\<open>OperatingSystemNotFound\<close> is.
  \<^verbatim>\<open>ValueError\<close> and \<^verbatim>\<open>TypeError\<close> are Python's own; \<^verbatim>\<open>OtherException\<close> stands for
  every other subclass of \<^verbatim>\<open>Exception\<close>.
\<close>

datatype exn =
    NotAuthorized
  | CoriolisException string
  | OperatingSystemNotFound string
  | ValueError string
  | TypeError string
  | OtherException string

text \<open>\<^verbatim>\<open>isinstance(e, exception.CoriolisException)\<close>\<close>

fun is_coriolis :: "exn \<Rightarrow> bool" where
  "is_coriolis NotAuthorized = True"
| "is_coriolis (CoriolisException m) = True"
| "is_coriolis (OperatingSystemNotFound m) = True"
| "is_coriolis (ValueError m) = False"
| "is_coriolis (TypeError m) = False"
| "is_coriolis (OtherException m) = False"

text \<open>
  \<^verbatim>\<open>s.split(sep)\<close> as Python evaluates it: an empty separator raises \<^verbatim>\<open>ValueError\<close>.
\<close>

definition py_split :: "string \<Rightarrow> string \<Rightarrow> exn + string list" where
  "py_split s sep =
     (if sep = [] then Inl (ValueError ''empty separator'') else Inr (split_on sep s))"

text \<open>
  \<^verbatim>\<open>fmt % arg\<close> with one string argument. The model covers \<^verbatim>\<open>%s\<close> and \<^verbatim>\<open>%%\<close>, which is what
  the templates of this module use; any other conversion is reported as
  \<^verbatim>\<open>OtherException\<close>. The flag tells whether the argument has been consumed.
\<close>

fun py_format_aux :: "bool \<Rightarrow> string \<Rightarrow> string \<Rightarrow> exn + string" where
  "py_format_aux used arg [] =
     (if used then Inr []
      else Inl (TypeError ''not all arguments converted during string formatting''))"
| "py_format_aux used arg [c] =
     (if c = CHR ''%'' then Inl (ValueError ''incomplete format'')
      else map_sum id (Cons c) (py_format_aux used arg []))"
| "py_format_aux used arg (c # d # cs) =
     (if c \<noteq> CHR ''%'' then map_sum id (Cons c) (py_format_aux used arg (d # cs))
      else if d = CHR ''%'' then map_sum id (Cons c) (py_format_aux used arg cs)
      else if d = CHR ''s''
      then (if used then Inl (TypeError ''not enough arguments for format string'')
            else map_sum id (append arg) (py_format_aux True arg cs))
      else Inl (OtherException ''conversion outside the model''))"

definition py_format :: "string \<Rightarrow> string \<Rightarrow> exn + string" where
  "py_format fmt arg = py_format_aux False arg fmt"

section \<open>The disk entry pattern\<close>

text \<open>
  \<^verbatim>\<open>re.match\<close> of \<^verbatim>\<open>\s+Disk (%s)\s+%s\s+\<close> at the start of a line, written as matchers
  in continuation style: each takes the matcher of the rest of the pattern and tries
  the longest repetition first, then the shorter ones, as the backtracking of \<^verbatim>\<open>re\<close>
  does. The status is taken literally: the model covers the statuses with no regular
  expression operator in them, such as \<^verbatim>\<open>Foreign\<close>.
\<close>

fun re_spaces :: "(string \<Rightarrow> 'a option) \<Rightarrow> string \<Rightarrow> 'a option" where
  "re_spaces k [] = None"
| "re_spaces k (c # cs) =
     (if is_space c
      then (case re_spaces k cs of Some r \<Rightarrow> Some r | None \<Rightarrow> k cs)
      else None)"

definition re_literal :: "string \<Rightarrow> (string \<Rightarrow> 'a option) \<Rightarrow> string \<Rightarrow> 'a option" where
  "re_literal p k s = (if prefix p s then k (drop (length p) s) else None)"

fun re_digits :: "(string \<Rightarrow> string \<Rightarrow> 'a option) \<Rightarrow> string \<Rightarrow> string \<Rightarrow> 'a option" where
  "re_digits k acc [] = None"
| "re_digits k acc (c # cs) =
     (if is_digit c
      then (case re_digits k (acc @ [c]) cs of Some r \<Rightarrow> Some r | None \<Rightarrow> k (acc @ [c]) cs)
      else None)"

text \<open>
  \<^verbatim>\<open>re.match(search_disk_entry_re, d)\<close>: the match's \<^verbatim>\<open>group(1)\<close>, or \<^verbatim>\<open>None\<close>.
\<close>

definition search_disk_entry :: "string \<Rightarrow> string \<Rightarrow> string option" where
  "search_disk_entry status d =
     re_spaces (re_literal ''Disk ''
       (re_digits (\<lambda>g. re_spaces (re_literal status (re_spaces (\<lambda>_. Some g)))) [])) d"

text \<open>\<^verbatim>\<open>re.match(curr_disk_entry_re, line)\<close> as a truth value.\<close>

definition curr_disk_entry :: "string \<Rightarrow> string \<Rightarrow> string \<Rightarrow> bool" where
  "curr_disk_entry disk_id status line =
     (re_spaces (re_literal ''Disk ''
        (re_literal disk_id
          (re_spaces (re_literal status (re_spaces (\<lambda>_. Some ())))))) line \<noteq> None)"

section \<open>The remote session and its effects\<close>

text \<open>
  The collaborators of the class: the \<^verbatim>\<open>WSManConnection\<close> in \<^verbatim>\<open>self._conn\<close> and the two
  library calls with an effect, \<^verbatim>\<open>uuid.uuid4\<close> and \<^verbatim>\<open>time.sleep\<close>. Each acts on the state
  \<open>'s\<close> of the world outside the program; a call of the connection returns its value or
  raises.
\<close>

record 's session =
  conn_exec :: "string \<Rightarrow> 's \<Rightarrow> (exn + string) \<times> 's"
  conn_write :: "string \<Rightarrow> string \<Rightarrow> 's \<Rightarrow> (exn + unit) \<times> 's"
  conn_test :: "string \<Rightarrow> 's \<Rightarrow> (exn + bool) \<times> 's"
  conn_EOL :: string
  lib_uuid4 :: "'s \<Rightarrow> string \<times> 's"
  lib_sleep :: "nat \<Rightarrow> 's \<Rightarrow> 's"

datatype log_level = Debug | Info | Warn

datatype log_arg = Str string | Strs "string list" | Exc exn

text \<open>
  What the program did, in order. \<open>Exec\<close>, \<open>WriteFile\<close>, \<open>TestPath\<close> and \<open>Sleep\<close> are the
  calls of the collaborators, the first three with what the call returned or raised;
  \<open>Log\<close> is a call of \<^verbatim>\<open>LOG\<close> with its level, its message template and its arguments, not
  formatted. The last three record the calls of \<^verbatim>\<open>_run_diskpart_script\<close> in
  \<^verbatim>\<open>_service_disks_with_status\<close> with their outcome, one constructor for each place: the
  first listing, the listing that re-checks a candidate, and the service script of a
  candidate. The events are written only: no function reads them.
\<close>

datatype event =
    Exec string "exn + string"
  | WriteFile string string "exn + unit"
  | TestPath string "exn + bool"
  | Sleep nat
  | Log log_level string "log_arg list"
  | ListDisks "exn + string"
  | Recheck string "exn + string"
  | Service string string "exn + string"

text \<open>
  A statement or a method: from the state of the world to what it returns or raises, the
  new state of the world, and its events.
\<close>

type_synonym ('s, 'a) prog = "'s \<Rightarrow> (exn + 'a) \<times> 's \<times> event list"

definition result :: "(exn + 'a) \<times> 's \<times> event list \<Rightarrow> exn + 'a" where
  "result x = fst x"

definition world :: "(exn + 'a) \<times> 's \<times> event list \<Rightarrow> 's" where
  "world x = fst (snd x)"

definition events :: "(exn + 'a) \<times> 's \<times> event list \<Rightarrow> event list" where
  "events x = snd (snd x)"

definition ret :: "'a \<Rightarrow> ('s, 'a) prog" where
  "ret v w = (Inr v, w, [])"

definition raise :: "exn \<Rightarrow> ('s, 'a) prog" where
  "raise e w = (Inl e, w, [])"

text \<open>One statement after another: an exception of the first ends both.\<close>

definition andthen :: "('s, 'a) prog \<Rightarrow> ('a \<Rightarrow> ('s, 'b) prog) \<Rightarrow> ('s, 'b) prog" where
  "andthen p f w =
     (case p w of
        (Inl e, w1, evs1) \<Rightarrow> (Inl e, w1, evs1)
      | (Inr v, w1, evs1) \<Rightarrow> (case f v w1 of (r, w2, evs2) \<Rightarrow> (r, w2, evs1 @ evs2)))"

text \<open>The body of a \<^verbatim>\<open>try\<close>: what it returned or raised, handed to the handlers.\<close>

definition attempt :: "('s, 'a) prog \<Rightarrow> ('s, exn + 'a) prog" where
  "attempt p w = (case p w of (r, w1, evs1) \<Rightarrow> (Inr r, w1, evs1))"

definition mark :: "event \<Rightarrow> ('s, unit) prog" where
  "mark ev w = (Inr (), w, [ev])"

definition log :: "log_level \<Rightarrow> string \<Rightarrow> log_arg list \<Rightarrow> ('s, unit) prog" where
  "log lvl msg args = mark (Log lvl msg args)"

definition exec_ps_command :: "'s session \<Rightarrow> string \<Rightarrow> ('s, string) prog" where
  "exec_ps_command c cmd w = (case conn_exec c cmd w of (r, w1) \<Rightarrow> (r, w1, [Exec cmd r]))"

definition write_file :: "'s session \<Rightarrow> string \<Rightarrow> string \<Rightarrow> ('s, unit) prog" where
  "write_file c path content w =
     (case conn_write c path content w of (r, w1) \<Rightarrow> (r, w1, [WriteFile path content r]))"

definition test_path :: "'s session \<Rightarrow> string \<Rightarrow> ('s, bool) prog" where
  "test_path c path w = (case conn_test c path w of (r, w1) \<Rightarrow> (r, w1, [TestPath path r]))"

definition uuid4 :: "'s session \<Rightarrow> ('s, string) prog" where
  "uuid4 c w = (case lib_uuid4 c w of (u, w1) \<Rightarrow> (Inr u, w1, []))"

definition sleep :: "'s session \<Rightarrow> nat \<Rightarrow> ('s, unit) prog" where
  "sleep c secs w = (Inr (), lib_sleep c secs w, [Sleep secs])"

section \<open>WindowsMountTools\<close>

subsection \<open>check_os\<close>

definition os_caption_query :: string where
  "os_caption_query = ''(get-ciminstance Win32_OperatingSystem).Caption''"

definition check_os :: "'s session \<Rightarrow> ('s, bool) prog" where
  "check_os c =
     andthen (attempt (exec_ps_command c os_caption_query)) (\<lambda>r.
       case r of
         Inr version_info \<Rightarrow>
           andthen (log Debug ''Windows version: %s'' [Str version_info]) (\<lambda>_. ret True)
       | Inl e \<Rightarrow>
           if e = NotAuthorized then raise e
           else if is_coriolis e
           then andthen (log Debug ''Failed Windows OSMount OS check: %s'' [Exc e])
                  (\<lambda>_. ret False)
           else raise e)"

subsection \<open>Running a diskpart script\<close>

definition tempdir_query :: string where
  "tempdir_query = ''$env:TEMP''"

definition run_diskpart_script :: "'s session \<Rightarrow> string \<Rightarrow> ('s, string) prog" where
  "run_diskpart_script c script =
     andthen (exec_ps_command c tempdir_query) (\<lambda>tempdir.
     andthen (uuid4 c) (\<lambda>u.
       let filepath = tempdir @ [BSL] @ u @ ''.txt''
       in andthen (write_file c filepath (utf8 script)) (\<lambda>_.
          exec_ps_command c (''diskpart.exe /s '' @ [QUOTE] @ filepath @ [QUOTE]))))"

subsection \<open>Servicing the disks of one status\<close>

definition disk_list_script :: string where
  "disk_list_script = ''LIST DISK'' @ CRLF @ ''EXIT''"

definition servicable_disk_ids :: "string \<Rightarrow> string \<Rightarrow> string list" where
  "servicable_disk_ids status disk_list =
     List.map_filter (search_disk_entry status) (split_on CRLF disk_list)"

definition service_failed_msg :: string where
  "service_failed_msg =
     ''Exception ocurred while servicing disk '%s' with status '%s'.''
       @ ''Skipping running script '%s'. Error message: %s''"

text \<open>
  What the inner loop does at the first line that matches: log, fill the disk into the
  service script and run it, and log or raise again what it raised.
\<close>

definition service_matched ::
  "'s session \<Rightarrow> string \<Rightarrow> string \<Rightarrow> bool \<Rightarrow> string \<Rightarrow> string \<Rightarrow> ('s, unit) prog"
where
  "service_matched c status fmt skip_on_error logmsg_fmt disk_id =
     andthen (log Info logmsg_fmt [Str disk_id]) (\<lambda>_.
       case py_format fmt disk_id of
         Inl e \<Rightarrow> raise e
       | Inr script \<Rightarrow>
           andthen (attempt (run_diskpart_script c script)) (\<lambda>r.
           andthen (mark (Service disk_id script r)) (\<lambda>_.
             case r of
               Inr out \<Rightarrow> ret ()
             | Inl ex \<Rightarrow>
                 if skip_on_error
                 then log Warn service_failed_msg [Str disk_id, Str status, Str script, Exc ex]
                 else raise ex)))"

text \<open>
  The inner loop over the lines of the fresh listing: the first line that matches the
  disk and the status runs the service script and ends the loop.
\<close>

fun service_lines ::
  "'s session \<Rightarrow> string \<Rightarrow> string \<Rightarrow> bool \<Rightarrow> string \<Rightarrow> string \<Rightarrow> string list \<Rightarrow> ('s, unit) prog"
where
  "service_lines c status fmt skip_on_error logmsg_fmt disk_id [] = ret ()"
| "service_lines c status fmt skip_on_error logmsg_fmt disk_id (line # lines) =
     (if curr_disk_entry disk_id status line
      then service_matched c status fmt skip_on_error logmsg_fmt disk_id
      else service_lines c status fmt skip_on_error logmsg_fmt disk_id lines)"

text \<open>The body of the outer loop for a disk that is not to be skipped.\<close>

definition service_disk ::
  "'s session \<Rightarrow> string \<Rightarrow> string \<Rightarrow> bool \<Rightarrow> string \<Rightarrow> string \<Rightarrow> ('s, unit) prog"
where
  "service_disk c status fmt skip_on_error logmsg_fmt disk_id =
     andthen (attempt (run_diskpart_script c disk_list_script)) (\<lambda>r.
     andthen (mark (Recheck disk_id r)) (\<lambda>_.
       case r of
         Inl e \<Rightarrow> raise e
       | Inr disk_list \<Rightarrow>
           service_lines c status fmt skip_on_error logmsg_fmt disk_id
             (split_on CRLF disk_list)))"

definition skipping_msg :: string where
  "skipping_msg = ''Skipping disk with ID: %s''"

fun service_loop ::
  "'s session \<Rightarrow> string \<Rightarrow> string \<Rightarrow> bool \<Rightarrow> string \<Rightarrow> string list \<Rightarrow> string list
     \<Rightarrow> ('s, unit) prog"
where
  "service_loop c status fmt skip_on_error logmsg_fmt disk_ids_to_skip [] = ret ()"
| "service_loop c status fmt skip_on_error logmsg_fmt disk_ids_to_skip (disk_id # rest) =
     (if disk_id \<in> set disk_ids_to_skip
      then andthen (log Warn skipping_msg [Str disk_id]) (\<lambda>_.
             service_loop c status fmt skip_on_error logmsg_fmt disk_ids_to_skip rest)
      else andthen (service_disk c status fmt skip_on_error logmsg_fmt disk_id) (\<lambda>_.
             service_loop c status fmt skip_on_error logmsg_fmt disk_ids_to_skip rest))"

text \<open>\<^verbatim>\<open>if disk_ids_to_skip is None: disk_ids_to_skip = []\<close>\<close>

definition ids_to_skip :: "string list option \<Rightarrow> string list" where
  "ids_to_skip disk_ids_to_skip = (case disk_ids_to_skip of None \<Rightarrow> [] | Some ids \<Rightarrow> ids)"

definition servicing_msg :: string where
  "servicing_msg = ''Servicing disks with status '%s' (%s) from disk list: %s''"

definition service_disks_with_status ::
  "'s session \<Rightarrow> string \<Rightarrow> string \<Rightarrow> bool \<Rightarrow> string \<Rightarrow> string list option \<Rightarrow> ('s, unit) prog"
where
  "service_disks_with_status c status service_script_with_id_fmt skip_on_error logmsg_fmt
       disk_ids_to_skip =
     (let skip = ids_to_skip disk_ids_to_skip
      in andthen (attempt (run_diskpart_script c disk_list_script)) (\<lambda>r.
         andthen (mark (ListDisks r)) (\<lambda>_.
           case r of
             Inl e \<Rightarrow> raise e
           | Inr disk_list \<Rightarrow>
               (let servicable = servicable_disk_ids status disk_list
                in andthen (log Debug servicing_msg [Str status, Strs servicable, Str disk_list])
                     (\<lambda>_. service_loop c status service_script_with_id_fmt skip_on_error
                             logmsg_fmt skip servicable)))))"

definition set_foreign_disks_rw_mode :: "'s session \<Rightarrow> ('s, unit) prog" where
  "set_foreign_disks_rw_mode c =
     service_disks_with_status c ''Foreign''
       (''SELECT DISK %s'' @ CRLF @ ''ATTRIBUTES DISK CLEAR READONLY'' @ CRLF @ ''EXIT'')
       False (''Clearing R/O flag on foreign disk with ID '' @ [QUOTE] @ ''%s'' @ [QUOTE] @ ''.'')
       None"

definition import_foreign_disks :: "'s session \<Rightarrow> ('s, unit) prog" where
  "import_foreign_disks c =
     service_disks_with_status c ''Foreign''
       (''SELECT DISK %s'' @ CRLF @ ''IMPORT'' @ CRLF @ ''EXIT'')
       False (''Importing foreign disk with ID '' @ [QUOTE] @ ''%s'' @ [QUOTE] @ ''.'')
       None"

subsection \<open>The best-effort steps\<close>

text \<open>
  The loops of \<^verbatim>\<open>_bring_disks_online\<close>, \<^verbatim>\<open>_set_basic_disks_rw_mode\<close> and
  \<^verbatim>\<open>_bring_nonboot_disks_offline\<close> have one shape: run a command made from the disk
  number, and on a \<^verbatim>\<open>CoriolisException\<close> log a warning and go on. The command prefix and
  the message are the parameters.
\<close>

fun set_disk_loop :: "'s session \<Rightarrow> string \<Rightarrow> string \<Rightarrow> string list \<Rightarrow> ('s, unit) prog" where
  "set_disk_loop c cmd msg [] = ret ()"
| "set_disk_loop c cmd msg (disk_num # rest) =
     andthen (attempt (exec_ps_command c (cmd @ disk_num))) (\<lambda>r.
       case r of
         Inr out \<Rightarrow> set_disk_loop c cmd msg rest
       | Inl e \<Rightarrow>
           if is_coriolis e
           then andthen (log Warn msg [Str disk_num, Exc e]) (\<lambda>_. set_disk_loop c cmd msg rest)
           else raise e)"

definition offline_disks_query :: string where
  "offline_disks_query = ''(Get-Disk | Where-Object { $_.IsOffline -eq $True }).Number''"

definition read_only_disks_query :: string where
  "read_only_disks_query = ''(Get-Disk | Where-Object { $_.IsReadOnly -eq $True }).Number''"

definition nonboot_disks_query :: string where
  "nonboot_disks_query = ''(Get-Disk | Where-Object { $_.IsBoot -eq $False }).Number''"

definition set_online_cmd :: string where
  "set_online_cmd = ''Set-Disk -IsOffline $False ''"

definition set_rw_cmd :: string where
  "set_rw_cmd = ''Set-Disk -IsReadOnly $False ''"

definition set_offline_cmd :: string where
  "set_offline_cmd = ''Set-Disk -IsOffline $True ''"

definition online_failed_msg :: string where
  "online_failed_msg = ''Failed setting disk {disk_num} online. Error was: {details}''"

definition rw_failed_msg :: string where
  "rw_failed_msg = ''Failed setting disk {disk_num} RW flag. Error was: {details}''"

definition offline_failed_msg :: string where
  "offline_failed_msg = ''Failed setting disk %s offline. Error was: %s''"

definition bring_disks_online :: "'s session \<Rightarrow> string list option \<Rightarrow> ('s, unit) prog" where
  "bring_disks_online c disk_nums =
     andthen
       (case disk_nums of
          None \<Rightarrow>
            andthen (exec_ps_command c offline_disks_query) (\<lambda>out. ret (splitlines out))
        | Some nums \<Rightarrow> ret nums)
       (set_disk_loop c set_online_cmd online_failed_msg)"

definition set_basic_disks_rw_mode :: "'s session \<Rightarrow> ('s, unit) prog" where
  "set_basic_disks_rw_mode c =
     andthen (exec_ps_command c read_only_disks_query) (\<lambda>read_only_disk_nums.
       set_disk_loop c set_rw_cmd rw_failed_msg (splitlines read_only_disk_nums))"

definition bring_nonboot_disks_offline :: "'s session \<Rightarrow> string list option \<Rightarrow> ('s, unit) prog"
where
  "bring_nonboot_disks_offline c disk_nums =
     andthen
       (case disk_nums of
          None \<Rightarrow>
            andthen (exec_ps_command c nonboot_disks_query) (\<lambda>out. ret (splitlines out))
        | Some nums \<Rightarrow> ret nums)
       (set_disk_loop c set_offline_cmd offline_failed_msg)"

definition rebring_disks_online :: "'s session \<Rightarrow> string list option \<Rightarrow> ('s, unit) prog" where
  "rebring_disks_online c disk_nums =
     andthen (bring_nonboot_disks_offline c disk_nums) (\<lambda>_. bring_disks_online c disk_nums)"

subsection \<open>Drive letters\<close>

definition partitions_query :: string where
  "partitions_query =
     ''Get-Partition | Where-Object { $_.Type -eq '' @ [DQUOTE] @ ''Basic'' @ [DQUOTE]
       @ '' -and $_.NoDefaultDriveLetter -eq $True } | Select-Object -Property ''
       @ ''DiskNumber,PartitionNumber''"

definition skipping_partition_msg :: string where
  "skipping_partition_msg = ''Skipping partition line: {part_line}''"

fun set_partitions_loop :: "'s session \<Rightarrow> string list \<Rightarrow> string list \<Rightarrow> ('s, string list) prog"
where
  "set_partitions_loop c disk_nums [] = ret disk_nums"
| "set_partitions_loop c disk_nums (part # rest) =
     (let part_line = split_ws part
      in case part_line of
           disk_num # part_num # _ \<Rightarrow>
             if \<not> isnumeric disk_num \<or> \<not> isnumeric part_num
             then andthen (log Debug skipping_partition_msg [Strs part_line])
                    (\<lambda>_. set_partitions_loop c disk_nums rest)
             else andthen
                    (exec_ps_command c
                       (''Set-Partition -NoDefaultDriveLetter $False -DiskNumber '' @ disk_num
                          @ '' -PartitionNumber '' @ part_num))
                    (\<lambda>_. set_partitions_loop c (disk_nums @ [disk_num]) rest)
         | _ \<Rightarrow>
             andthen (log Debug skipping_partition_msg [Strs part_line])
               (\<lambda>_. set_partitions_loop c disk_nums rest))"

definition set_volumes_drive_letter :: "'s session \<Rightarrow> ('s, unit) prog" where
  "set_volumes_drive_letter c =
     andthen (exec_ps_command c partitions_query) (\<lambda>partitions.
       if partitions \<noteq> []
       then andthen
              (log Debug ''Partitions without default drive letter: {partitions}''
                 [Str partitions])
              (\<lambda>_. andthen (set_partitions_loop c [] (splitlines partitions))
                      (\<lambda>disk_nums. rebring_disks_online c (Some disk_nums)))
       else ret ())"

subsection \<open>Filesystem roots\<close>

definition system_drive_query :: string where
  "system_drive_query = ''$env:SystemDrive''"

definition fs_roots_query :: string where
  "fs_roots_query = ''(get-psdrive -PSProvider FileSystem).Root''"

definition get_system_drive :: "'s session \<Rightarrow> ('s, string) prog" where
  "get_system_drive c = exec_ps_command c system_drive_query"

definition get_fs_roots :: "'s session \<Rightarrow> bool \<Rightarrow> ('s, string list) prog" where
  "get_fs_roots c fail_if_empty =
     andthen (exec_ps_command c fs_roots_query) (\<lambda>out.
       case py_split out (conn_EOL c) of
         Inl e \<Rightarrow> raise e
       | Inr drives \<Rightarrow>
           if length drives = 0 \<and> fail_if_empty
           then raise (CoriolisException ''No filesystems found'')
           else ret drives)"

subsection \<open>mount_os and dismount_os\<close>

definition os_marker :: string where
  "os_marker = ''Windows'' @ [BSL] @ ''System32''"

text \<open>The loop of \<^verbatim>\<open>mount_os\<close> over the roots left by the filter, and the raise after it.\<close>

fun find_os_root :: "'s session \<Rightarrow> string list \<Rightarrow> ('s, string \<times> string option) prog" where
  "find_os_root c [] = raise (OperatingSystemNotFound ''root partition not found'')"
| "find_os_root c (fs_root # rest) =
     andthen (test_path c (fs_root @ os_marker)) (\<lambda>found.
       if found then ret (fs_root, None) else find_os_root c rest)"

text \<open>
  \<open>retry\<close> stands for \<^verbatim>\<open>utils.retry_on_error(sleep_seconds=5)\<close>, which is applied to
  \<^verbatim>\<open>self._get_fs_roots\<close> and is not among the sources: \<^verbatim>\<open>mount_os\<close> is modelled for any
  such wrapper.
\<close>

definition mount_os ::
  "(('s, string list) prog \<Rightarrow> ('s, string list) prog) \<Rightarrow> 's session
     \<Rightarrow> ('s, string \<times> string option) prog"
where
  "mount_os retry c =
     andthen (bring_disks_online c None) (\<lambda>_.
     andthen (set_basic_disks_rw_mode c) (\<lambda>_.
     andthen (set_volumes_drive_letter c) (\<lambda>_.
     andthen (retry (get_fs_roots c True)) (\<lambda>fs_roots.
     andthen (get_system_drive c) (\<lambda>system_drive.
       find_os_root c (filter (\<lambda>r. \<not> butlast r = system_drive) fs_roots))))))"

definition dismount_os :: "'s session \<Rightarrow> string \<Rightarrow> ('s, unit) prog" where
  "dismount_os c root_drive = bring_nonboot_disks_offline c None"

section \<open>The retry wrapper\<close>

text \<open>
  Modelled from the spec: \<^verbatim>\<open>utils.retry_on_error\<close>, which \<^verbatim>\<open>mount_os\<close> wraps around
  \<^verbatim>\<open>_get_fs_roots\<close> and which is not among the sources. By the spec the discovery returns at
  once on the first result and otherwise retries, a fixed number of attempts with a fixed
  sleep between two attempts; when the attempts are exhausted the last failure is raised.
  The first argument is the number of attempts, the second the sleep in seconds.
\<close>

fun retry_on_error :: "nat \<Rightarrow> nat \<Rightarrow> 's session \<Rightarrow> ('s, 'a) prog \<Rightarrow> ('s, 'a) prog" where
  "retry_on_error 0 sleep_seconds c func = func"
| "retry_on_error (Suc n) sleep_seconds c func =
     andthen (attempt func) (\<lambda>r.
       case r of
         Inr v \<Rightarrow> ret v
       | Inl e \<Rightarrow>
           if n = 0 then raise e
           else andthen (sleep c sleep_seconds) (\<lambda>_. retry_on_error n sleep_seconds c func))"

section \<open>Machines for the examples\<close>

text \<open>
  A machine whose answers do not change: what each command prints or raises, and the
  paths that exist.
\<close>

definition static_machine :: "(string \<Rightarrow> exn + string) \<Rightarrow> (string \<Rightarrow> bool) \<Rightarrow> unit session" where
  "static_machine answer exists =
     \<lparr>conn_exec = (\<lambda>cmd w. (answer cmd, w)),
      conn_write = (\<lambda>path content w. (Inr (), w)),
      conn_test = (\<lambda>path w. (Inr (exists path), w)),
      conn_EOL = CRLF,
      lib_uuid4 = (\<lambda>w. (''0000'', w)),
      lib_sleep = (\<lambda>secs w. w)\<rparr>"

text \<open>The answers of a machine with the given roots and system drive.\<close>

definition roots_answer :: "string \<Rightarrow> string \<Rightarrow> string \<Rightarrow> exn + string" where
  "roots_answer roots system_drive cmd =
     (if cmd = fs_roots_query then Inr roots
      else if cmd = system_drive_query then Inr system_drive
      else Inr [])"

text \<open>
  The answers of a machine that lists the disks \<open>nums\<close> to every query and on which every
  command that ends with a disk of \<open>failing\<close> fails.
\<close>

definition flaky_answer :: "string \<Rightarrow> string list \<Rightarrow> string \<Rightarrow> exn + string" where
  "flaky_answer nums failing cmd =
     (if cmd \<in> {offline_disks_query, read_only_disks_query, nonboot_disks_query} then Inr nums
      else if list_ex (\<lambda>d. suffix ('' '' @ d) cmd) failing
      then Inl (CoriolisException ''Set-Disk failed'')
      else Inr [])"

text \<open>Both \<^verbatim>\<open>C:\<close> and \<^verbatim>\<open>E:\<close> hold a Windows installation.\<close>

definition two_systems :: "string \<Rightarrow> bool" where
  "two_systems p = (p = ''C:'' @ [BSL] @ os_marker \<or> p = ''E:'' @ [BSL] @ os_marker)"

definition three_disks :: string where
  "three_disks = ''1'' @ CRLF @ ''2'' @ CRLF @ ''3''"

text \<open>The answers of a machine on which every command fails with \<open>e\<close>.\<close>

definition failing_answer :: "exn \<Rightarrow> string \<Rightarrow> exn + string" where
  "failing_answer e cmd = Inl e"

definition three_roots :: string where
  "three_roots = ''C:'' @ [BSL] @ CRLF @ ''D:'' @ [BSL] @ CRLF @ ''E:'' @ [BSL]"

text \<open>
  A machine with disks: the table of the disks with their status, and the script file
  written last, in bytes. \<^verbatim>\<open>diskpart\<close> lists the disks or imports one; importing a disk of the group
  \<open>grp\<close> sets the whole group online, importing a disk of \<open>failing\<close> fails.
\<close>

record machine =
  disks :: "(string \<times> string) list"
  script_file :: string

definition render_disk :: "string \<times> string \<Rightarrow> string" where
  "render_disk d = ''  Disk '' @ fst d @ ''    '' @ snd d @ ''         10 GB      0 B''"

definition render_disks :: "(string \<times> string) list \<Rightarrow> string" where
  "render_disks ds =
     ''  Disk ###  Status         Size     Free'' @ CRLF
     @ concat (map (\<lambda>d. render_disk d @ CRLF) ds)"

definition import_fmt :: string where
  "import_fmt = ''SELECT DISK %s'' @ CRLF @ ''IMPORT'' @ CRLF @ ''EXIT''"

definition import_script :: "string \<Rightarrow> string" where
  "import_script i = ''SELECT DISK '' @ i @ CRLF @ ''IMPORT'' @ CRLF @ ''EXIT''"

definition set_online :: "string list \<Rightarrow> (string \<times> string) list \<Rightarrow> (string \<times> string) list" where
  "set_online ids ds = map (\<lambda>d. if fst d \<in> set ids then (fst d, ''Online'') else d) ds"

definition diskpart :: "string list \<Rightarrow> string list \<Rightarrow> machine \<Rightarrow> (exn + string) \<times> machine" where
  "diskpart grp failing w =
     (if script_file w = utf8 disk_list_script then (Inr (render_disks (disks w)), w)
      else case find (\<lambda>d. script_file w = utf8 (import_script (fst d))) (disks w) of
             None \<Rightarrow> (Inl (CoriolisException ''diskpart: bad script''), w)
           | Some d \<Rightarrow>
               if fst d \<in> set failing
               then (Inl (CoriolisException ''diskpart: import failed''), w)
               else (Inr ''imported'',
                     w\<lparr>disks := set_online (if fst d \<in> set grp then grp else [fst d]) (disks w)\<rparr>))"

definition disk_machine :: "string list \<Rightarrow> string list \<Rightarrow> machine session" where
  "disk_machine grp failing =
     \<lparr>conn_exec = (\<lambda>cmd w.
        if cmd = tempdir_query then (Inr ''T:'', w)
        else if prefix ''diskpart.exe /s '' cmd then diskpart grp failing w
        else (Inr [], w)),
      conn_write = (\<lambda>path content w. (Inr (), w\<lparr>script_file := content\<rparr>)),
      conn_test = (\<lambda>path w. (Inr False, w)),
      conn_EOL = CRLF,
      lib_uuid4 = (\<lambda>w. (''0000'', w)),
      lib_sleep = (\<lambda>secs w. w)\<rparr>"

definition scenario_disks :: machine where
  "scenario_disks =
     \<lparr>disks = [(''0'', ''Foreign''), (''1'', ''Foreign''), (''2'', ''Online'')],
      script_file = []\<rparr>"

text \<open>The listings of the three disks before and after the import of the group.\<close>

definition scenario_listing :: string where
  "scenario_listing = render_disks (disks scenario_disks)"

definition scenario_listing_after :: string where
  "scenario_listing_after =
     render_disks [(''0'', ''Online''), (''1'', ''Online''), (''2'', ''Online'')]"

text \<open>
  A listing with the line of the foreign disk 1 twice, and the answers of a machine that
  prints it to every run of \<^verbatim>\<open>diskpart\<close>, whatever the script.
\<close>

definition repeated_listing :: string where
  "repeated_listing =
     ''  Disk ###  Status         Size     Free'' @ CRLF
     @ render_disk (''1'', ''Foreign'') @ CRLF
     @ render_disk (''1'', ''Foreign'') @ CRLF"

definition repeating_answer :: "string \<Rightarrow> exn + string" where
  "repeating_answer cmd = (if cmd = tempdir_query then Inr ''T:'' else Inr repeated_listing)"

definition import_failed :: exn where
  "import_failed = CoriolisException ''diskpart: import failed''"

section \<open>Properties of the events\<close>

text \<open>
  A best-effort step over the disks \<open>ds\<close>: the events are, disk after disk and in the
  order of the list, the command of the disk and, when the command raised, the warning
  with the disk and the exception. Nothing else happens, and no disk is left out.
\<close>

fun best_effort_events :: "string \<Rightarrow> string \<Rightarrow> string list \<Rightarrow> event list \<Rightarrow> bool" where
  "best_effort_events cmd msg [] evs = (evs = [])"
| "best_effort_events cmd msg (d # ds) [] = False"
| "best_effort_events cmd msg (d # ds) (ev # rest) =
     (case ev of
        Exec x r \<Rightarrow>
          x = cmd @ d \<and>
          (case r of
             Inr out \<Rightarrow> best_effort_events cmd msg ds rest
           | Inl e \<Rightarrow>
               (case rest of
                  [] \<Rightarrow> False
                | ev2 # rest2 \<Rightarrow>
                    ev2 = Log Warn msg [Str d, Exc e] \<and> best_effort_events cmd msg ds rest2))
      | _ \<Rightarrow> False)"

text \<open>
  The roots that a search for the marker tests when no test fails: those before the first
  root with the marker, and that root.
\<close>

fun roots_tested :: "(string \<Rightarrow> bool) \<Rightarrow> string list \<Rightarrow> string list" where
  "roots_tested exists [] = []"
| "roots_tested exists (r # rs) =
     (if exists (r @ os_marker) then [r] else r # roots_tested exists rs)"

text \<open>The calls of the connection.\<close>

fun is_call :: "event \<Rightarrow> bool" where
  "is_call (Exec cmd r) = True"
| "is_call (WriteFile path content r) = True"
| "is_call ev = False"

text \<open>
  The disks on which the service script was run, and the disks that were re-checked, each
  in the order of the events.
\<close>

fun serviced :: "event list \<Rightarrow> string list" where
  "serviced [] = []"
| "serviced (Service d sc r # evs) = d # serviced evs"
| "serviced (ev # evs) = serviced evs"

fun rechecked :: "event list \<Rightarrow> string list" where
  "rechecked [] = []"
| "rechecked (Recheck d r # evs) = d # rechecked evs"
| "rechecked (ev # evs) = rechecked evs"

text \<open>The runs of \<^verbatim>\<open>_run_diskpart_script\<close> in a pass, in order.\<close>

fun is_run :: "event \<Rightarrow> bool" where
  "is_run (ListDisks r) = True"
| "is_run (Recheck d r) = True"
| "is_run (Service d sc r) = True"
| "is_run ev = False"

definition script_runs :: "event list \<Rightarrow> event list" where
  "script_runs evs = filter is_run evs"

text \<open>
  A run of the service script on a disk is allowed only right after the re-check of that
  disk, the listing of the re-check having a line that still matches the disk and the
  status. \<open>preceded\<close> says so of every run of a list, \<open>prev\<close> being the run before the list.
\<close>

definition allowed_after :: "string \<Rightarrow> event option \<Rightarrow> event \<Rightarrow> bool" where
  "allowed_after status prev ev =
     (case ev of
        Service d sc r \<Rightarrow>
          (case prev of
             Some (Recheck d' (Inr l)) \<Rightarrow>
               d' = d \<and> list_ex (curr_disk_entry d status) (split_on CRLF l)
           | _ \<Rightarrow> False)
      | _ \<Rightarrow> True)"

fun preceded :: "string \<Rightarrow> event option \<Rightarrow> event list \<Rightarrow> bool" where
  "preceded status prev [] = True"
| "preceded status prev (ev # evs) =
     (allowed_after status prev ev \<and> preceded status (Some ev) evs)"

text \<open>The exception of a service script that failed.\<close>

fun failure_of :: "event \<Rightarrow> exn option" where
  "failure_of (Service d sc (Inl e)) = Some e"
| "failure_of ev = None"

text \<open>
  Nothing happens after a service script that failed, and the pass raises what the script
  raised.
\<close>

fun stops_at_failure :: "exn + unit \<Rightarrow> event list \<Rightarrow> bool" where
  "stops_at_failure r [] = True"
| "stops_at_failure r (ev # evs) =
     ((case failure_of ev of None \<Rightarrow> True | Some e \<Rightarrow> evs = [] \<and> r = Inl e)
      \<and> stops_at_failure r evs)"

text \<open>
  The warning that \<^verbatim>\<open>skip_on_error\<close> logs for a service script that failed; \<open>failures_logged\<close>
  says that every such script is followed at once by its warning.
\<close>

fun warning_for :: "string \<Rightarrow> event \<Rightarrow> event option" where
  "warning_for status (Service d sc (Inl e)) =
     Some (Log Warn service_failed_msg [Str d, Str status, Str sc, Exc e])"
| "warning_for status ev = None"

fun failures_logged :: "string \<Rightarrow> event list \<Rightarrow> bool" where
  "failures_logged status [] = True"
| "failures_logged status (ev # evs) =
     ((case warning_for status ev of
         None \<Rightarrow> True
       | Some warning \<Rightarrow> (case evs of [] \<Rightarrow> False | ev2 # rest \<Rightarrow> ev2 = warning))
      \<and> failures_logged status evs)"

section \<open>Basic facts\<close>

lemma result_simp [simp]: "result (r, w, evs) = r"
  by (simp add: result_def)

lemma world_simp [simp]: "world (r, w, evs) = w"
  by (simp add: world_def)

lemma events_simp [simp]: "events (r, w, evs) = evs"
  by (simp add: events_def)

lemma split_aux_nonempty: "split_aux sep acc s \<noteq> []"
  by (induction sep acc s rule: split_aux.induct) auto

lemma split_on_nonempty: "split_on sep s \<noteq> []"
  by (simp add: split_on_def split_aux_nonempty)

section \<open>The OS probe\<close>

text \<open>
  C6. \<^verbatim>\<open>check_os\<close> raises \<^verbatim>\<open>NotAuthorized\<close> whenever the query raises it; it returns
  \<^verbatim>\<open>False\<close> when the query fails with any other remote-execution error, that is any other
  \<^verbatim>\<open>CoriolisException\<close>; it returns \<^verbatim>\<open>True\<close> when the query succeeds.
\<close>

theorem check_os_outcomes:
  "(fst (conn_exec c os_caption_query w) = Inl NotAuthorized \<longrightarrow>
      result (check_os c w) = Inl NotAuthorized)
   \<and> (\<forall>e. fst (conn_exec c os_caption_query w) = Inl e \<and> is_coriolis e \<and> e \<noteq> NotAuthorized \<longrightarrow>
        result (check_os c w) = Inr False)
   \<and> (\<forall>v. fst (conn_exec c os_caption_query w) = Inr v \<longrightarrow> result (check_os c w) = Inr True)"
  by (auto simp: check_os_def andthen_def attempt_def exec_ps_command_def log_def mark_def
        ret_def raise_def split: prod.splits sum.splits)

theorem check_os_outcomes_witness:
  "result (check_os (static_machine (failing_answer NotAuthorized) (\<lambda>p. False)) ())
     = Inl NotAuthorized
   \<and> result (check_os (static_machine (failing_answer (CoriolisException ''exit code 1''))
                (\<lambda>p. False)) ()) = Inr False
   \<and> result (check_os (static_machine (roots_answer [] ''C:'') (\<lambda>p. False)) ()) = Inr True"
  using check_os_outcomes [of "static_machine (failing_answer NotAuthorized) (\<lambda>p. False)" "()"]
    check_os_outcomes [of "static_machine (failing_answer (CoriolisException ''exit code 1''))
                (\<lambda>p. False)" "()"]
    check_os_outcomes [of "static_machine (roots_answer [] ''C:'') (\<lambda>p. False)" "()"]
  by (simp add: static_machine_def failing_answer_def roots_answer_def)

section \<open>The filesystem roots\<close>

text \<open>
  C9. Splitting never gives the empty list, not even for the empty string. So
  \<^verbatim>\<open>_get_fs_roots\<close> does the same with \<^verbatim>\<open>fail_if_empty\<close> set and not set: the branch that
  raises "No filesystems found" is never taken; every list it returns has an element; and
  for every output of the enumeration it returns such a list, the separator of the
  connection being a separator, that is not empty.
\<close>

theorem get_fs_roots_never_empty:
  "split_on sep out \<noteq> []
   \<and> get_fs_roots c True w = get_fs_roots c False w
   \<and> (\<forall>drives. result (get_fs_roots c fail_if_empty w) = Inr drives \<longrightarrow> drives \<noteq> [])
   \<and> (conn_EOL c \<noteq> [] \<longrightarrow> fst (conn_exec c fs_roots_query w) = Inr out \<longrightarrow>
        (\<exists>drives. result (get_fs_roots c True w) = Inr drives \<and> drives \<noteq> []))"
proof (intro conjI)
  show "split_on sep out \<noteq> []"
    by (rule split_on_nonempty)
  show "get_fs_roots c True w = get_fs_roots c False w"
    by (auto simp: get_fs_roots_def andthen_def py_split_def split_on_nonempty ret_def raise_def
             split: prod.splits sum.splits)
  show "\<forall>drives. result (get_fs_roots c fail_if_empty w) = Inr drives \<longrightarrow> drives \<noteq> []"
    by (auto simp: get_fs_roots_def andthen_def py_split_def split_on_nonempty ret_def raise_def
          exec_ps_command_def split: prod.splits sum.splits if_splits)
  show "conn_EOL c \<noteq> [] \<longrightarrow> fst (conn_exec c fs_roots_query w) = Inr out \<longrightarrow>
        (\<exists>drives. result (get_fs_roots c True w) = Inr drives \<and> drives \<noteq> [])"
    by (auto simp: get_fs_roots_def andthen_def py_split_def split_on_nonempty ret_def raise_def
          exec_ps_command_def split: prod.splits sum.splits if_splits)
qed

theorem get_fs_roots_never_empty_witness:
  "conn_EOL (static_machine (roots_answer [] ''C:'') (\<lambda>p. False)) \<noteq> []
   \<and> fst (conn_exec (static_machine (roots_answer [] ''C:'') (\<lambda>p. False)) fs_roots_query ())
       = Inr []
   \<and> result (get_fs_roots (static_machine (roots_answer [] ''C:'') (\<lambda>p. False)) True ())
       = Inr [[]]"
proof -
  let ?m = "static_machine (roots_answer [] ''C:'') (\<lambda>p. False)"
  have h1: "conn_EOL ?m \<noteq> []"
    by (simp add: static_machine_def CRLF_def)
  have h2: "fst (conn_exec ?m fs_roots_query ()) = Inr []"
    by (simp add: static_machine_def roots_answer_def)
  from get_fs_roots_never_empty [of CRLF "[]" ?m "()" True] h1 h2
  obtain drives where "result (get_fs_roots ?m True ()) = Inr drives" "drives \<noteq> []"
    by blast
  moreover have "result (get_fs_roots ?m True ()) = Inr [[]]"
    by (simp add: get_fs_roots_def andthen_def exec_ps_command_def static_machine_def
          roots_answer_def py_split_def CRLF_def split_on_def ret_def)
  ultimately show ?thesis using h1 h2 by simp
qed

section \<open>The best-effort steps\<close>

lemma set_disk_loop_best_effort:
  "(\<forall>d\<in>set nums. \<forall>w e. fst (conn_exec c (cmd @ d) w) = Inl e \<longrightarrow> is_coriolis e) \<Longrightarrow>
   result (set_disk_loop c cmd msg nums w) = Inr ()
   \<and> best_effort_events cmd msg nums (events (set_disk_loop c cmd msg nums w))"
proof (induction nums arbitrary: w)
  case Nil
  then show ?case by (simp add: ret_def)
next
  case (Cons d ds)
  obtain r w1 where ex: "conn_exec c (cmd @ d) w = (r, w1)"
    by (cases "conn_exec c (cmd @ d) w")
  obtain r2 w2 evs2 where rest: "set_disk_loop c cmd msg ds w1 = (r2, w2, evs2)"
    by (cases "set_disk_loop c cmd msg ds w1")
  from Cons.IH [of w1] Cons.prems rest
  have ih: "r2 = Inr ()" "best_effort_events cmd msg ds evs2"
    by auto
  show ?case
  proof (cases r)
    case (Inr out)
    with ex rest ih show ?thesis
      by (simp add: andthen_def attempt_def exec_ps_command_def)
  next
    case (Inl e)
    with ex Cons.prems have "is_coriolis e"
      by (metis fst_conv list.set_intros(1))
    with Inl ex rest ih show ?thesis
      by (simp add: andthen_def attempt_def exec_ps_command_def log_def mark_def)
  qed
qed

lemma query_then_loop:
  assumes "fst (conn_exec c query w) = Inr out"
    and "\<forall>d\<in>set (splitlines out). \<forall>w e. fst (conn_exec c (cmd @ d) w) = Inl e \<longrightarrow> is_coriolis e"
  shows "result (andthen (exec_ps_command c query)
                   (\<lambda>out. set_disk_loop c cmd msg (splitlines out)) w) = Inr ()
         \<and> (\<exists>evs. events (andthen (exec_ps_command c query)
                     (\<lambda>out. set_disk_loop c cmd msg (splitlines out)) w)
                   = Exec query (Inr out) # evs
               \<and> best_effort_events cmd msg (splitlines out) evs)"
proof -
  obtain w1 where ex: "conn_exec c query w = (Inr out, w1)"
    using assms(1) by (cases "conn_exec c query w") auto
  obtain r2 w2 evs2 where rest: "set_disk_loop c cmd msg (splitlines out) w1 = (r2, w2, evs2)"
    by (cases "set_disk_loop c cmd msg (splitlines out) w1")
  from set_disk_loop_best_effort [OF assms(2), of msg w1] rest
  have "r2 = Inr ()" "best_effort_events cmd msg (splitlines out) evs2"
    by auto
  with ex rest show ?thesis
    by (simp add: andthen_def exec_ps_command_def)
qed

lemma bring_disks_online_None:
  "bring_disks_online c None =
     andthen (exec_ps_command c offline_disks_query)
       (\<lambda>out. set_disk_loop c set_online_cmd online_failed_msg (splitlines out))"
  by (rule ext)
     (simp add: bring_disks_online_def andthen_def ret_def split: prod.splits sum.splits)

lemma bring_nonboot_disks_offline_None:
  "bring_nonboot_disks_offline c None =
     andthen (exec_ps_command c nonboot_disks_query)
       (\<lambda>out. set_disk_loop c set_offline_cmd offline_failed_msg (splitlines out))"
  by (rule ext)
     (simp add: bring_nonboot_disks_offline_def andthen_def ret_def split: prod.splits sum.splits)

text \<open>
  C7. Bringing the offline disks online and clearing the read-only flag do not raise,
  whichever of the per-disk commands fail with a remote-execution error (a
  \<^verbatim>\<open>CoriolisException\<close>): when the query of the disks has answered, the step returns, and
  its events after the query are one command for each disk of the answer, in order, each
  failure followed by its warning.
\<close>

theorem best_effort_steps:
  "(fst (conn_exec c offline_disks_query w) = Inr out \<longrightarrow>
      (\<forall>d\<in>set (splitlines out). \<forall>w' e.
          fst (conn_exec c (set_online_cmd @ d) w') = Inl e \<longrightarrow> is_coriolis e) \<longrightarrow>
      result (bring_disks_online c None w) = Inr ()
      \<and> (\<exists>evs. events (bring_disks_online c None w) = Exec offline_disks_query (Inr out) # evs
            \<and> best_effort_events set_online_cmd online_failed_msg (splitlines out) evs))
   \<and> (fst (conn_exec c read_only_disks_query w) = Inr out \<longrightarrow>
      (\<forall>d\<in>set (splitlines out). \<forall>w' e.
          fst (conn_exec c (set_rw_cmd @ d) w') = Inl e \<longrightarrow> is_coriolis e) \<longrightarrow>
      result (set_basic_disks_rw_mode c w) = Inr ()
      \<and> (\<exists>evs. events (set_basic_disks_rw_mode c w) = Exec read_only_disks_query (Inr out) # evs
            \<and> best_effort_events set_rw_cmd rw_failed_msg (splitlines out) evs))"
  unfolding bring_disks_online_None set_basic_disks_rw_mode_def
  using query_then_loop [of c offline_disks_query w out set_online_cmd online_failed_msg]
    query_then_loop [of c read_only_disks_query w out set_rw_cmd rw_failed_msg]
  by blast

lemma flaky_only_coriolis:
  "fst (conn_exec (static_machine (flaky_answer nums failing) ex) cmd w) = Inl e \<Longrightarrow> is_coriolis e"
  by (auto simp: static_machine_def flaky_answer_def split: if_splits)

lemma flaky_queries:
  "fst (conn_exec (static_machine (flaky_answer nums failing) ex) offline_disks_query w) = Inr nums"
  "fst (conn_exec (static_machine (flaky_answer nums failing) ex) read_only_disks_query w) = Inr nums"
  "fst (conn_exec (static_machine (flaky_answer nums failing) ex) nonboot_disks_query w) = Inr nums"
  by (simp_all add: static_machine_def flaky_answer_def)

theorem best_effort_steps_witness:
  "fst (conn_exec (static_machine (flaky_answer three_disks [''2'']) (\<lambda>p. False))
          offline_disks_query ()) = Inr three_disks
   \<and> fst (conn_exec (static_machine (flaky_answer three_disks [''2'']) (\<lambda>p. False))
          (set_online_cmd @ ''2'') ()) = Inl (CoriolisException ''Set-Disk failed'')
   \<and> result (bring_disks_online (static_machine (flaky_answer three_disks [''2'']) (\<lambda>p. False))
               None ()) = Inr ()
   \<and> result (set_basic_disks_rw_mode (static_machine (flaky_answer three_disks [''2'']) (\<lambda>p. False))
               ()) = Inr ()"
proof -
  let ?m = "static_machine (flaky_answer three_disks [''2'']) (\<lambda>p. False)"
  have f1: "\<forall>d\<in>set (splitlines three_disks). \<forall>w' e.
              fst (conn_exec ?m (set_online_cmd @ d) w') = Inl e \<longrightarrow> is_coriolis e"
    using flaky_only_coriolis by blast
  have f2: "\<forall>d\<in>set (splitlines three_disks). \<forall>w' e.
              fst (conn_exec ?m (set_rw_cmd @ d) w') = Inl e \<longrightarrow> is_coriolis e"
    using flaky_only_coriolis by blast
  have fails: "fst (conn_exec ?m (set_online_cmd @ ''2'') ())
                 = Inl (CoriolisException ''Set-Disk failed'')"
    by (simp add: static_machine_def flaky_answer_def set_online_cmd_def
          offline_disks_query_def read_only_disks_query_def nonboot_disks_query_def suffix_def)
  from best_effort_steps [of ?m "()" three_disks] flaky_queries f1 f2 fails
  show ?thesis by blast
qed

text \<open>
  C8. \<^verbatim>\<open>dismount_os\<close> does the same for any two roots. It sets every disk that the
  query of the non-boot disks lists offline, best effort: when the query has answered it
  returns, whichever of the per-disk commands fail with a remote-execution error, and its
  events after the query are one command for each disk, in order, each failure followed
  by its warning.
\<close>

theorem dismount_os_ignores_root:
  "dismount_os c root1 w = dismount_os c root2 w
   \<and> (fst (conn_exec c nonboot_disks_query w) = Inr out \<longrightarrow>
      (\<forall>d\<in>set (splitlines out). \<forall>w' e.
          fst (conn_exec c (set_offline_cmd @ d) w') = Inl e \<longrightarrow> is_coriolis e) \<longrightarrow>
      result (dismount_os c root1 w) = Inr ()
      \<and> (\<exists>evs. events (dismount_os c root1 w) = Exec nonboot_disks_query (Inr out) # evs
            \<and> best_effort_events set_offline_cmd offline_failed_msg (splitlines out) evs))"
  unfolding dismount_os_def bring_nonboot_disks_offline_None
  using query_then_loop [of c nonboot_disks_query w out set_offline_cmd offline_failed_msg]
  by blast

theorem dismount_os_ignores_root_witness:
  "fst (conn_exec (static_machine (flaky_answer three_disks [''2'']) (\<lambda>p. False))
          nonboot_disks_query ()) = Inr three_disks
   \<and> fst (conn_exec (static_machine (flaky_answer three_disks [''2'']) (\<lambda>p. False))
          (set_offline_cmd @ ''2'') ()) = Inl (CoriolisException ''Set-Disk failed'')
   \<and> result (dismount_os (static_machine (flaky_answer three_disks [''2'']) (\<lambda>p. False))
               (''E:'' @ [BSL]) ()) = Inr ()"
proof -
  let ?m = "static_machine (flaky_answer three_disks [''2'']) (\<lambda>p. False)"
  have f1: "\<forall>d\<in>set (splitlines three_disks). \<forall>w' e.
              fst (conn_exec ?m (set_offline_cmd @ d) w') = Inl e \<longrightarrow> is_coriolis e"
    using flaky_only_coriolis by blast
  have fails: "fst (conn_exec ?m (set_offline_cmd @ ''2'') ())
                 = Inl (CoriolisException ''Set-Disk failed'')"
    by (simp add: static_machine_def flaky_answer_def set_offline_cmd_def
          offline_disks_query_def read_only_disks_query_def nonboot_disks_query_def suffix_def)
  from dismount_os_ignores_root [of ?m "''E:'' @ [BSL]" "()" "''D:'' @ [BSL]" three_disks]
    flaky_queries f1 fails
  show ?thesis by blast
qed

section \<open>mount_os\<close>

lemma find_os_root_result:
  "result (find_os_root c roots w) = Inr (r, m) \<Longrightarrow> r \<in> set roots \<and> m = None"
proof (induction roots arbitrary: w)
  case Nil
  then show ?case by (simp add: raise_def)
next
  case (Cons a roots)
  obtain t w1 where t: "conn_test c (a @ os_marker) w = (t, w1)"
    by (cases "conn_test c (a @ os_marker) w")
  show ?case
  proof (cases t)
    case (Inl e)
    with t Cons.prems show ?thesis
      by (simp add: andthen_def test_path_def)
  next
    case (Inr found)
    obtain r2 w2 evs2 where rest: "find_os_root c roots w1 = (r2, w2, evs2)"
      by (cases "find_os_root c roots w1")
    with Inr t Cons.prems Cons.IH [of w1] show ?thesis
      by (cases found) (auto simp: andthen_def test_path_def ret_def)
  qed
qed

lemma find_os_root_static:
  assumes "\<forall>p w. conn_test c p w = (Inr (exists p), w)"
  shows "find_os_root c roots w =
           ((case find (\<lambda>r. exists (r @ os_marker)) roots of
               Some r \<Rightarrow> Inr (r, None)
             | None \<Rightarrow> Inl (OperatingSystemNotFound ''root partition not found'')),
            w,
            map (\<lambda>r. TestPath (r @ os_marker) (Inr (exists (r @ os_marker))))
              (roots_tested exists roots))"
  using assms
  by (induction roots) (simp_all add: raise_def andthen_def test_path_def ret_def)

lemma mount_os_unfold:
  assumes "bring_disks_online c None w = (Inr (), wa, ea)"
    and "set_basic_disks_rw_mode c wa = (Inr (), wb, eb)"
    and "set_volumes_drive_letter c wb = (Inr (), w1, ec)"
    and "retry (get_fs_roots c True) w1 = (Inr fs_roots, w2, evs2)"
    and "get_system_drive c w2 = (Inr system_drive, w3, evs3)"
  shows "mount_os retry c w =
           (result (find_os_root c (filter (\<lambda>r. butlast r \<noteq> system_drive) fs_roots) w3),
            world (find_os_root c (filter (\<lambda>r. butlast r \<noteq> system_drive) fs_roots) w3),
            ea @ eb @ ec @ evs2 @ evs3
              @ events (find_os_root c (filter (\<lambda>r. butlast r \<noteq> system_drive) fs_roots) w3))"
  using assms
  by (simp add: mount_os_def andthen_def result_def world_def events_def split: prod.splits)

text \<open>
  C1. When the steps before the search have succeeded, with the roots \<open>fs_roots\<close> and the
  system drive \<open>system_drive\<close>: whatever \<^verbatim>\<open>mount_os\<close> returns is one of the roots, is not the
  system drive (the root without its last character is not \<open>system_drive\<close>), and comes with
  \<^verbatim>\<open>None\<close>. When moreover the test of a path answers \<open>exists\<close> and changes nothing,
  \<^verbatim>\<open>mount_os\<close> returns the first root, in the order of the enumeration, that is not the
  system drive and has the marker, and raises \<^verbatim>\<open>OperatingSystemNotFound\<close> when there is none;
  the paths it tests are the markers of the roots other than the system drive, in order,
  up to the first that exists.
\<close>

theorem mount_os_finds_root:
  assumes "bring_disks_online c None w = (Inr (), wa, ea)"
    and "set_basic_disks_rw_mode c wa = (Inr (), wb, eb)"
    and "set_volumes_drive_letter c wb = (Inr (), w1, ec)"
    and "retry (get_fs_roots c True) w1 = (Inr fs_roots, w2, evs2)"
    and "get_system_drive c w2 = (Inr system_drive, w3, evs3)"
  shows "(\<forall>r m. result (mount_os retry c w) = Inr (r, m) \<longrightarrow>
            butlast r \<noteq> system_drive \<and> r \<in> set fs_roots \<and> m = None)
         \<and> ((\<forall>p w'. conn_test c p w' = (Inr (exists p), w')) \<longrightarrow>
              result (mount_os retry c w) =
                (case find (\<lambda>r. exists (r @ os_marker))
                        (filter (\<lambda>r. butlast r \<noteq> system_drive) fs_roots) of
                   Some r \<Rightarrow> Inr (r, None)
                 | None \<Rightarrow> Inl (OperatingSystemNotFound ''root partition not found''))
              \<and> events (mount_os retry c w) =
                  ea @ eb @ ec @ evs2 @ evs3
                    @ map (\<lambda>r. TestPath (r @ os_marker) (Inr (exists (r @ os_marker))))
                        (roots_tested exists (filter (\<lambda>r. butlast r \<noteq> system_drive) fs_roots)))"
proof (intro conjI allI impI)
  fix r m
  assume "result (mount_os retry c w) = Inr (r, m)"
  then have "result (find_os_root c (filter (\<lambda>r. butlast r \<noteq> system_drive) fs_roots) w3)
               = Inr (r, m)"
    by (simp add: mount_os_unfold [where retry = retry, OF assms])
  from find_os_root_result [OF this]
  show "butlast r \<noteq> system_drive" "r \<in> set fs_roots" "m = None"
    by auto
next
  assume static: "\<forall>p w'. conn_test c p w' = (Inr (exists p), w')"
  show "result (mount_os retry c w) =
          (case find (\<lambda>r. exists (r @ os_marker))
                  (filter (\<lambda>r. butlast r \<noteq> system_drive) fs_roots) of
             Some r \<Rightarrow> Inr (r, None)
           | None \<Rightarrow> Inl (OperatingSystemNotFound ''root partition not found''))"
    by (simp add: mount_os_unfold [where retry = retry, OF assms] find_os_root_static [OF static])
  show "events (mount_os retry c w) =
          ea @ eb @ ec @ evs2 @ evs3
            @ map (\<lambda>r. TestPath (r @ os_marker) (Inr (exists (r @ os_marker))))
                (roots_tested exists (filter (\<lambda>r. butlast r \<noteq> system_drive) fs_roots))"
    by (simp add: mount_os_unfold [where retry = retry, OF assms] find_os_root_static [OF static])
qed

lemma static_quiet:
  "answer offline_disks_query = Inr [] \<Longrightarrow>
   bring_disks_online (static_machine answer ex) None ()
     = (Inr (), (), [Exec offline_disks_query (Inr [])])"
  "answer read_only_disks_query = Inr [] \<Longrightarrow>
   set_basic_disks_rw_mode (static_machine answer ex) ()
     = (Inr (), (), [Exec read_only_disks_query (Inr [])])"
  "answer partitions_query = Inr [] \<Longrightarrow>
   set_volumes_drive_letter (static_machine answer ex) ()
     = (Inr (), (), [Exec partitions_query (Inr [])])"
  by (simp_all add: bring_disks_online_def set_basic_disks_rw_mode_def
        set_volumes_drive_letter_def andthen_def exec_ps_command_def static_machine_def ret_def
        splitlines_def)

lemma roots_answer_other:
  "roots_answer roots sd offline_disks_query = Inr []"
  "roots_answer roots sd read_only_disks_query = Inr []"
  "roots_answer roots sd partitions_query = Inr []"
  "roots_answer roots sd fs_roots_query = Inr roots"
  "roots_answer roots sd system_drive_query = Inr sd"
  by (simp_all add: roots_answer_def offline_disks_query_def read_only_disks_query_def
        partitions_query_def fs_roots_query_def system_drive_query_def)

lemma split_three_roots:
  "split_on CRLF three_roots = [''C:'' @ [BSL], ''D:'' @ [BSL], ''E:'' @ [BSL]]"
  by (simp add: split_on_def three_roots_def CRLF_def CR_def LF_def BSL_def)

lemma retry_first:
  "func w = (Inr v, w1, evs) \<Longrightarrow> retry_on_error n secs c func w = (Inr v, w1, evs)"
  by (cases n) (simp_all add: andthen_def attempt_def ret_def)

lemma get_fs_roots_static:
  "answer fs_roots_query = Inr out \<Longrightarrow>
   get_fs_roots (static_machine answer ex) flag () =
     (Inr (split_on CRLF out), (), [Exec fs_roots_query (Inr out)])"
  by (simp add: get_fs_roots_def andthen_def exec_ps_command_def static_machine_def py_split_def
        CRLF_def ret_def split_on_nonempty)

theorem mount_os_finds_root_witness:
  "mount_os (retry_on_error 5 5 (static_machine (roots_answer three_roots ''C:'') two_systems))
     (static_machine (roots_answer three_roots ''C:'') two_systems) ()
   = (Inr (''E:'' @ [BSL], None), (),
      [Exec offline_disks_query (Inr []), Exec read_only_disks_query (Inr []),
       Exec partitions_query (Inr []), Exec fs_roots_query (Inr three_roots),
       Exec system_drive_query (Inr ''C:''),
       TestPath (''D:'' @ [BSL] @ os_marker) (Inr False),
       TestPath (''E:'' @ [BSL] @ os_marker) (Inr True)])"
proof -
  let ?m = "static_machine (roots_answer three_roots ''C:'') two_systems"
  have a: "bring_disks_online ?m None () = (Inr (), (), [Exec offline_disks_query (Inr [])])"
    by (simp add: static_quiet roots_answer_other)
  have b: "set_basic_disks_rw_mode ?m () = (Inr (), (), [Exec read_only_disks_query (Inr [])])"
    by (simp add: static_quiet roots_answer_other)
  have c: "set_volumes_drive_letter ?m () = (Inr (), (), [Exec partitions_query (Inr [])])"
    by (simp add: static_quiet roots_answer_other)
  have d: "retry_on_error 5 5 ?m (get_fs_roots ?m True) ()
             = (Inr [''C:'' @ [BSL], ''D:'' @ [BSL], ''E:'' @ [BSL]], (),
                [Exec fs_roots_query (Inr three_roots)])"
    by (rule retry_first) (simp add: get_fs_roots_static roots_answer_other split_three_roots)
  have e: "get_system_drive ?m () = (Inr ''C:'', (), [Exec system_drive_query (Inr ''C:'')])"
    by (simp add: get_system_drive_def exec_ps_command_def static_machine_def roots_answer_other)
  have f: "\<forall>p w'. conn_test ?m p w' = (Inr (two_systems p), w')"
    by (simp add: static_machine_def)
  have g: "two_systems (''C:'' @ [BSL] @ os_marker)" "\<not> two_systems (''D:'' @ [BSL] @ os_marker)"
    "two_systems (''E:'' @ [BSL] @ os_marker)"
    by (simp_all add: two_systems_def)
  from mount_os_finds_root [where retry = "retry_on_error 5 5 ?m" and exists = two_systems,
      OF a b c d e] f g
  have "result (mount_os (retry_on_error 5 5 ?m) ?m ()) = Inr (''E:'' @ [BSL], None)"
    and "events (mount_os (retry_on_error 5 5 ?m) ?m ()) =
      [Exec offline_disks_query (Inr []), Exec read_only_disks_query (Inr []),
       Exec partitions_query (Inr []), Exec fs_roots_query (Inr three_roots),
       Exec system_drive_query (Inr ''C:''),
       TestPath (''D:'' @ [BSL] @ os_marker) (Inr False),
       TestPath (''E:'' @ [BSL] @ os_marker) (Inr True)]"
    by simp_all
  then show ?thesis
    by (cases "mount_os (retry_on_error 5 5 ?m) ?m ()") simp
qed

text \<open>
  The wrapper does retry a function that raises: with \<open>n + 1\<close> attempts it calls the
  function \<open>n + 1\<close> times, sleeps between two calls, and raises the last exception.
\<close>

lemma retry_exhausted:
  assumes "\<forall>w. func w = (Inl e, w, [ev])"
  shows "retry_on_error (Suc n) secs c func w
           = (Inl e, (lib_sleep c secs ^^ n) w, ev # concat (replicate n [Sleep secs, ev]))"
  using assms
proof (induction n arbitrary: w)
  case 0
  then show ?case by (simp add: andthen_def attempt_def raise_def)
next
  case (Suc n)
  from Suc.IH [OF Suc.prems, of "lib_sleep c secs w"] Suc.prems
  show ?case
    by (simp add: andthen_def attempt_def sleep_def funpow_swap1)
qed

text \<open>
  C5. On a machine whose enumeration of the filesystem roots prints nothing,
  \<^verbatim>\<open>_get_fs_roots\<close> returns the list with the empty string at the first attempt, for any
  number of attempts: the enumeration runs once, nothing sleeps, and \<^verbatim>\<open>mount_os\<close> goes on
  to test the marker under the empty root and raises \<^verbatim>\<open>OperatingSystemNotFound\<close>, not the
  error of an empty enumeration.
\<close>

theorem empty_enumeration_not_retried:
  "\<forall>n. retry_on_error n 5 (static_machine (roots_answer [] ''C:'') (\<lambda>p. False))
          (get_fs_roots (static_machine (roots_answer [] ''C:'') (\<lambda>p. False)) True) ()
        = (Inr [[]], (), [Exec fs_roots_query (Inr [])])
      \<and> mount_os (retry_on_error n 5 (static_machine (roots_answer [] ''C:'') (\<lambda>p. False)))
          (static_machine (roots_answer [] ''C:'') (\<lambda>p. False)) ()
        = (Inl (OperatingSystemNotFound ''root partition not found''), (),
           [Exec offline_disks_query (Inr []), Exec read_only_disks_query (Inr []),
            Exec partitions_query (Inr []), Exec fs_roots_query (Inr []),
            Exec system_drive_query (Inr ''C:''), TestPath os_marker (Inr False)])"
proof
  fix n
  let ?m = "static_machine (roots_answer [] ''C:'') (\<lambda>p. False)"
  have a: "bring_disks_online ?m None () = (Inr (), (), [Exec offline_disks_query (Inr [])])"
    by (simp add: static_quiet roots_answer_other)
  have b: "set_basic_disks_rw_mode ?m () = (Inr (), (), [Exec read_only_disks_query (Inr [])])"
    by (simp add: static_quiet roots_answer_other)
  have c: "set_volumes_drive_letter ?m () = (Inr (), (), [Exec partitions_query (Inr [])])"
    by (simp add: static_quiet roots_answer_other)
  have d: "retry_on_error n 5 ?m (get_fs_roots ?m True) ()
             = (Inr [[]], (), [Exec fs_roots_query (Inr [])])"
    by (rule retry_first) (simp add: get_fs_roots_static roots_answer_other split_on_def)
  have e: "get_system_drive ?m () = (Inr ''C:'', (), [Exec system_drive_query (Inr ''C:'')])"
    by (simp add: get_system_drive_def exec_ps_command_def static_machine_def roots_answer_other)
  have f: "find_os_root ?m (filter (\<lambda>r. butlast r \<noteq> ''C:'') [[]]) ()
             = (Inl (OperatingSystemNotFound ''root partition not found''), (),
                [TestPath os_marker (Inr False)])"
    by (simp add: andthen_def test_path_def static_machine_def raise_def)
  have "mount_os (retry_on_error n 5 ?m) ?m ()
        = (Inl (OperatingSystemNotFound ''root partition not found''), (),
           [Exec offline_disks_query (Inr []), Exec read_only_disks_query (Inr []),
            Exec partitions_query (Inr []), Exec fs_roots_query (Inr []),
            Exec system_drive_query (Inr ''C:''), TestPath os_marker (Inr False)])"
    unfolding mount_os_unfold [where retry = "retry_on_error n 5 ?m", OF a b c d e] f
    by simp
  with d show "retry_on_error n 5 ?m (get_fs_roots ?m True) ()
        = (Inr [[]], (), [Exec fs_roots_query (Inr [])])
      \<and> mount_os (retry_on_error n 5 ?m) ?m ()
        = (Inl (OperatingSystemNotFound ''root partition not found''), (),
           [Exec offline_disks_query (Inr []), Exec read_only_disks_query (Inr []),
            Exec partitions_query (Inr []), Exec fs_roots_query (Inr []),
            Exec system_drive_query (Inr ''C:''), TestPath os_marker (Inr False)])"
    by simp
qed

section \<open>Servicing the disks\<close>

subsection \<open>The events of each layer\<close>

lemma serviced_append [simp]: "serviced (xs @ ys) = serviced xs @ serviced ys"
  by (induction xs rule: serviced.induct) simp_all

lemma rechecked_append [simp]: "rechecked (xs @ ys) = rechecked xs @ rechecked ys"
  by (induction xs rule: rechecked.induct) simp_all

lemma calls_serviced [simp]: "list_all is_call evs \<Longrightarrow> serviced evs = []"
  by (induction evs rule: serviced.induct) simp_all

lemma calls_rechecked [simp]: "list_all is_call evs \<Longrightarrow> rechecked evs = []"
  by (induction evs rule: rechecked.induct) simp_all

lemma run_diskpart_script_calls: "list_all is_call (events (run_diskpart_script c script w))"
  by (simp add: run_diskpart_script_def andthen_def exec_ps_command_def uuid4_def write_file_def
        Let_def events_def split: prod.splits sum.splits)

lemma service_lines_eq:
  "service_lines c status fmt soe lm d lines =
     (if list_ex (curr_disk_entry d status) lines
      then service_matched c status fmt soe lm d else ret ())"
  by (induction lines) simp_all

lemma andthen_parts:
  "result (andthen p f w) =
     (case result (p w) of Inl e \<Rightarrow> Inl e | Inr v \<Rightarrow> result (f v (world (p w))))"
  "world (andthen p f w) =
     (case result (p w) of Inl e \<Rightarrow> world (p w) | Inr v \<Rightarrow> world (f v (world (p w))))"
  "events (andthen p f w) =
     events (p w) @ (case result (p w) of Inl e \<Rightarrow> [] | Inr v \<Rightarrow> events (f v (world (p w))))"
  by (simp_all add: andthen_def result_def world_def events_def split: prod.splits sum.splits)

lemma attempt_parts:
  "result (attempt p w) = Inr (result (p w))"
  "world (attempt p w) = world (p w)"
  "events (attempt p w) = events (p w)"
  by (simp_all add: attempt_def result_def world_def events_def split: prod.splits)

lemma mark_parts:
  "result (mark ev w) = Inr ()" "world (mark ev w) = w" "events (mark ev w) = [ev]"
  "result (log lvl msg args w) = Inr ()" "world (log lvl msg args w) = w"
  "events (log lvl msg args w) = [Log lvl msg args]"
  by (simp_all add: mark_def log_def)

lemma ret_parts:
  "result (ret v w) = Inr v" "world (ret v w) = w" "events (ret v w) = []"
  "result (raise e w) = Inl e" "world (raise e w) = w" "events (raise e w) = []"
  by (simp_all add: ret_def raise_def)

lemmas parts = andthen_parts attempt_parts mark_parts ret_parts

lemma service_matched_events:
  "events (service_matched c status fmt soe lm d w) =
     Log Info lm [Str d] #
       (case py_format fmt d of
          Inl e \<Rightarrow> []
        | Inr sc \<Rightarrow>
            events (run_diskpart_script c sc w)
              @ Service d sc (result (run_diskpart_script c sc w))
              # (case result (run_diskpart_script c sc w) of
                   Inl ex \<Rightarrow> if soe then [Log Warn service_failed_msg [Str d, Str status, Str sc, Exc ex]] else []
                 | Inr out \<Rightarrow> []))"
  by (simp add: service_matched_def parts split: sum.splits)

lemma service_matched_result:
  "result (service_matched c status fmt soe lm d w) =
       (case py_format fmt d of
          Inl e \<Rightarrow> Inl e
        | Inr sc \<Rightarrow>
            (case result (run_diskpart_script c sc w) of
                   Inl ex \<Rightarrow> if soe then Inr () else Inl ex
                 | Inr out \<Rightarrow> Inr ()))"
  by (simp add: service_matched_def parts split: sum.splits)

lemma service_disk_events:
  "events (service_disk c status fmt soe lm d w) =
     events (run_diskpart_script c disk_list_script w)
       @ Recheck d (result (run_diskpart_script c disk_list_script w))
       # (case result (run_diskpart_script c disk_list_script w) of
            Inl e \<Rightarrow> []
          | Inr l \<Rightarrow>
              if list_ex (curr_disk_entry d status) (split_on CRLF l)
              then events (service_matched c status fmt soe lm d
                             (world (run_diskpart_script c disk_list_script w)))
              else [])"
  by (simp add: service_disk_def service_lines_eq parts split: sum.splits)

lemma service_disk_result:
  "result (service_disk c status fmt soe lm d w) =
       (case result (run_diskpart_script c disk_list_script w) of
            Inl e \<Rightarrow> Inl e
          | Inr l \<Rightarrow>
              if list_ex (curr_disk_entry d status) (split_on CRLF l)
              then result (service_matched c status fmt soe lm d
                             (world (run_diskpart_script c disk_list_script w)))
              else Inr ())"
  by (simp add: service_disk_def service_lines_eq parts split: sum.splits)

lemma service_loop_Cons_events:
  "events (service_loop c status fmt soe lm skip (d # ds) w) =
     (if d \<in> set skip
      then Log Warn skipping_msg [Str d] # events (service_loop c status fmt soe lm skip ds w)
      else events (service_disk c status fmt soe lm d w)
           @ (case result (service_disk c status fmt soe lm d w) of
                Inl e \<Rightarrow> []
              | Inr u \<Rightarrow> events (service_loop c status fmt soe lm skip ds
                                   (world (service_disk c status fmt soe lm d w)))))"
  by (simp add: parts split: sum.splits)

lemma service_loop_Cons_result:
  "result (service_loop c status fmt soe lm skip (d # ds) w) =
     (if d \<in> set skip
      then result (service_loop c status fmt soe lm skip ds w)
      else (case result (service_disk c status fmt soe lm d w) of
                Inl e \<Rightarrow> Inl e
              | Inr u \<Rightarrow> result (service_loop c status fmt soe lm skip ds
                                   (world (service_disk c status fmt soe lm d w)))))"
  by (simp add: parts split: sum.splits)

lemma service_disks_with_status_events:
  "events (service_disks_with_status c status fmt soe lm skip w) =
     events (run_diskpart_script c disk_list_script w)
       @ ListDisks (result (run_diskpart_script c disk_list_script w))
       # (case result (run_diskpart_script c disk_list_script w) of
            Inl e \<Rightarrow> []
          | Inr l \<Rightarrow>
              Log Debug servicing_msg [Str status, Strs (servicable_disk_ids status l), Str l]
              # events (service_loop c status fmt soe lm
                         (ids_to_skip skip)
                         (servicable_disk_ids status l)
                         (world (run_diskpart_script c disk_list_script w))))"
  by (simp add: service_disks_with_status_def parts Let_def split: sum.splits)

lemma service_disks_with_status_result:
  "result (service_disks_with_status c status fmt soe lm skip w) =
       (case result (run_diskpart_script c disk_list_script w) of
            Inl e \<Rightarrow> Inl e
          | Inr l \<Rightarrow>
              result (service_loop c status fmt soe lm
                         (ids_to_skip skip)
                         (servicable_disk_ids status l)
                         (world (run_diskpart_script c disk_list_script w))))"
  by (simp add: service_disks_with_status_def parts Let_def split: sum.splits)

declare service_loop.simps(2) [simp del]

subsection \<open>The disks of a pass\<close>

lemma calls_no_run [simp]: "list_all is_call evs \<Longrightarrow> filter is_run evs = []"
  by (induction evs rule: serviced.induct) simp_all

lemma calls_no_failure: "list_all is_call evs \<Longrightarrow> ev \<in> set evs \<Longrightarrow> failure_of ev = None"
  by (induction evs rule: serviced.induct) auto

lemma service_in_serviced: "Service d sc r \<in> set evs \<Longrightarrow> d \<in> set (serviced evs)"
  by (induction evs rule: serviced.induct) auto

lemma service_disk_ids:
  "rechecked (events (service_disk c status fmt soe lm d w)) = [d]
   \<and> (serviced (events (service_disk c status fmt soe lm d w)) = []
      \<or> serviced (events (service_disk c status fmt soe lm d w)) = [d])"
  by (simp add: service_disk_events service_matched_events run_diskpart_script_calls
        split: sum.splits)

lemma service_loop_ids:
  "prefix (rechecked (events (service_loop c status fmt soe lm skip ds w)))
     (filter (\<lambda>d. d \<notin> set skip) ds)
   \<and> (result (service_loop c status fmt soe lm skip ds w) = Inr () \<longrightarrow>
        rechecked (events (service_loop c status fmt soe lm skip ds w))
          = filter (\<lambda>d. d \<notin> set skip) ds)
   \<and> subseq (serviced (events (service_loop c status fmt soe lm skip ds w)))
       (rechecked (events (service_loop c status fmt soe lm skip ds w)))"
proof (induction ds arbitrary: w)
  case Nil
  then show ?case by (simp add: parts)
next
  case (Cons d ds)
  show ?case
  proof (cases "d \<in> set skip")
    case True
    with Cons.IH [of w] show ?thesis
      by (simp add: service_loop_Cons_events service_loop_Cons_result)
  next
    case False
    let ?X = "service_disk c status fmt soe lm d w"
    from service_disk_ids [of c status fmt soe lm d w]
    have r: "rechecked (events ?X) = [d]"
      and s: "serviced (events ?X) = [] \<or> serviced (events ?X) = [d]"
      by auto
    show ?thesis
    proof (cases "result ?X")
      case (Inl e)
      with False r s show ?thesis
        by (auto simp: service_loop_Cons_events service_loop_Cons_result)
    next
      case (Inr u)
      with False r s Cons.IH [of "world ?X"] show ?thesis
        by (auto simp: service_loop_Cons_events service_loop_Cons_result)
    qed
  qed
qed

lemma subseq_subset: "subseq xs ys \<Longrightarrow> set xs \<subseteq> set ys"
  by (auto dest: list_emb_set)

lemma pass_ids:
  "serviced (events (service_disks_with_status c status fmt soe lm skip w)) =
     (case result (run_diskpart_script c disk_list_script w) of
        Inl e \<Rightarrow> []
      | Inr l \<Rightarrow> serviced (events (service_loop c status fmt soe lm (ids_to_skip skip)
                    (servicable_disk_ids status l)
                    (world (run_diskpart_script c disk_list_script w)))))"
  "rechecked (events (service_disks_with_status c status fmt soe lm skip w)) =
     (case result (run_diskpart_script c disk_list_script w) of
        Inl e \<Rightarrow> []
      | Inr l \<Rightarrow> rechecked (events (service_loop c status fmt soe lm (ids_to_skip skip)
                    (servicable_disk_ids status l)
                    (world (run_diskpart_script c disk_list_script w)))))"
  by (simp_all add: service_disks_with_status_events run_diskpart_script_calls split: sum.splits)

lemma scenario_runs:
  "script_runs (events (service_disks_with_status (disk_machine [''0'', ''1''] []) ''Foreign''
     import_fmt False ''Importing %s'' None scenario_disks))
   = [ListDisks (Inr scenario_listing), Recheck ''0'' (Inr scenario_listing),
      Service ''0'' (import_script ''0'') (Inr ''imported''),
      Recheck ''1'' (Inr scenario_listing_after)]"
  by code_simp

lemma scenario_result:
  "result (service_disks_with_status (disk_machine [''0'', ''1''] []) ''Foreign''
     import_fmt False ''Importing %s'' None scenario_disks) = Inr ()"
  by code_simp

text \<open>
  C3. Whatever the listings, the status and the disks to skip: no event of a pass is a run
  of the service script on a disk of \<^verbatim>\<open>disk_ids_to_skip\<close>.
\<close>

theorem skipped_disks_never_serviced:
  "\<forall>d\<in>set (ids_to_skip disk_ids_to_skip). \<forall>script r.
     Service d script r
       \<notin> set (events (service_disks_with_status c status fmt skip_on_error logmsg_fmt
                        disk_ids_to_skip w))"
proof (intro ballI allI notI)
  fix d script r
  let ?E = "events (service_disks_with_status c status fmt skip_on_error logmsg_fmt
                      disk_ids_to_skip w)"
  assume skip: "d \<in> set (ids_to_skip disk_ids_to_skip)" and "Service d script r \<in> set ?E"
  then have d: "d \<in> set (serviced ?E)"
    by (simp add: service_in_serviced)
  show False
  proof (cases "result (run_diskpart_script c disk_list_script w)")
    case (Inl e)
    with d show False by (simp add: pass_ids)
  next
    case (Inr l)
    let ?L = "events (service_loop c status fmt skip_on_error logmsg_fmt
                (ids_to_skip disk_ids_to_skip) (servicable_disk_ids status l)
                (world (run_diskpart_script c disk_list_script w)))"
    from Inr d have "d \<in> set (serviced ?L)"
      by (simp add: pass_ids)
    moreover have "set (serviced ?L) \<subseteq> set (rechecked ?L)"
      using service_loop_ids by (metis subseq_subset)
    moreover have "set (rechecked ?L)
        \<subseteq> set (filter (\<lambda>d. d \<notin> set (ids_to_skip disk_ids_to_skip)) (servicable_disk_ids status l))"
      using service_loop_ids by (metis set_mono_prefix)
    ultimately show False using skip by auto
  qed
qed

theorem skipped_disks_never_serviced_witness:
  "''0'' \<in> set (ids_to_skip (Some [''0'']))
   \<and> servicable_disk_ids ''Foreign'' scenario_listing = [''0'', ''1'']
   \<and> Service ''0'' (import_script ''0'') (Inr ''imported'')
       \<notin> set (events (service_disks_with_status (disk_machine [] []) ''Foreign'' import_fmt
                        False ''Importing %s'' (Some [''0'']) scenario_disks))
   \<and> serviced (events (service_disks_with_status (disk_machine [] []) ''Foreign'' import_fmt
                        False ''Importing %s'' (Some [''0'']) scenario_disks)) = [''1'']"
proof -
  have a: "''0'' \<in> set (ids_to_skip (Some [''0'']))"
    by (simp add: ids_to_skip_def)
  have b: "servicable_disk_ids ''Foreign'' scenario_listing = [''0'', ''1'']"
    by code_simp
  have c: "serviced (events (service_disks_with_status (disk_machine [] []) ''Foreign'' import_fmt
                        False ''Importing %s'' (Some [''0'']) scenario_disks)) = [''1'']"
    by code_simp
  from skipped_disks_never_serviced [of "Some [''0'']" "disk_machine [] []" "''Foreign''"
      import_fmt False "''Importing %s''" scenario_disks] a
  have "Service ''0'' (import_script ''0'') (Inr ''imported'')
       \<notin> set (events (service_disks_with_status (disk_machine [] []) ''Foreign'' import_fmt
                        False ''Importing %s'' (Some [''0'']) scenario_disks))"
    by blast
  with a b c show ?thesis by blast
qed

lemma subseq_count: "subseq xs ys \<Longrightarrow> count_list xs d \<le> count_list ys d"
  by (induction rule: list_emb.induct) auto

lemma prefix_count: "prefix xs ys \<Longrightarrow> count_list xs d \<le> count_list ys d"
  by (auto simp: prefix_def)

lemma filter_count: "count_list (filter P xs) d \<le> count_list xs d"
  by (induction xs) auto

text \<open>
  A disk can be serviced twice in one pass. On a machine whose listing has the line of the
  foreign disk 1 twice, and on which clearing the read-only flag leaves the disk foreign,
  the first listing gives the candidates 1 and 1, and \<^verbatim>\<open>_set_foreign_disks_rw_mode\<close> returns
  after running the service script on disk 1 twice.
\<close>

theorem one_disk_serviced_twice_counterexample:
  "servicable_disk_ids ''Foreign'' repeated_listing = [''1'', ''1'']
   \<and> result (set_foreign_disks_rw_mode (static_machine repeating_answer (\<lambda>p. False)) ()) = Inr ()
   \<and> serviced (events (set_foreign_disks_rw_mode (static_machine repeating_answer (\<lambda>p. False)) ()))
       = [''1'', ''1'']"
  by code_simp

text \<open>
  C10, as amended. The first listing of a pass having succeeded with \<open>disk_list\<close>, its
  candidates are the disks of the lines of \<open>disk_list\<close> that match, one candidate for each
  such line. The disks that the pass re-checks are, in this order, a prefix of the
  candidates that are not to be skipped, and all of them when the pass returns; the disks
  it services are, in order, among the disks it re-checks, each re-check giving at most
  one run of the service script. So no disk is serviced that the first listing did not
  give, and a disk is serviced at most as many times as lines of the first listing match
  it: at most once when the first listing names it once.
\<close>

theorem candidates_fixed_serviced_once_per_entry:
  assumes "result (run_diskpart_script c disk_list_script w) = Inr disk_list"
  shows "prefix (rechecked (events (service_disks_with_status c status fmt soe lm skip w)))
           (filter (\<lambda>d. d \<notin> set (ids_to_skip skip)) (servicable_disk_ids status disk_list))
         \<and> (result (service_disks_with_status c status fmt soe lm skip w) = Inr () \<longrightarrow>
              rechecked (events (service_disks_with_status c status fmt soe lm skip w))
                = filter (\<lambda>d. d \<notin> set (ids_to_skip skip)) (servicable_disk_ids status disk_list))
         \<and> subseq (serviced (events (service_disks_with_status c status fmt soe lm skip w)))
             (rechecked (events (service_disks_with_status c status fmt soe lm skip w)))
         \<and> (\<forall>d. count_list (serviced (events (service_disks_with_status c status fmt soe lm skip w))) d
                  \<le> count_list (servicable_disk_ids status disk_list) d)"
proof -
  let ?L = "service_loop c status fmt soe lm (ids_to_skip skip)
              (servicable_disk_ids status disk_list)
              (world (run_diskpart_script c disk_list_script w))"
  let ?F = "filter (\<lambda>d. d \<notin> set (ids_to_skip skip)) (servicable_disk_ids status disk_list)"
  have s: "serviced (events (service_disks_with_status c status fmt soe lm skip w))
             = serviced (events ?L)"
    and r: "rechecked (events (service_disks_with_status c status fmt soe lm skip w))
             = rechecked (events ?L)"
    and res: "result (service_disks_with_status c status fmt soe lm skip w) = result ?L"
    using assms by (simp_all add: pass_ids service_disks_with_status_result)
  from service_loop_ids [of c status fmt soe lm "ids_to_skip skip"
         "servicable_disk_ids status disk_list" "world (run_diskpart_script c disk_list_script w)"]
  have p: "prefix (rechecked (events ?L)) ?F"
    and e: "result ?L = Inr () \<longrightarrow> rechecked (events ?L) = ?F"
    and q: "subseq (serviced (events ?L)) (rechecked (events ?L))"
    by auto
  have "count_list (serviced (events ?L)) d \<le> count_list (servicable_disk_ids status disk_list) d"
    for d
  proof -
    have "count_list (serviced (events ?L)) d \<le> count_list (rechecked (events ?L)) d"
      using q by (rule subseq_count)
    also have "\<dots> \<le> count_list ?F d"
      using p by (rule prefix_count)
    also have "\<dots> \<le> count_list (servicable_disk_ids status disk_list) d"
      by (rule filter_count)
    finally show ?thesis .
  qed
  with p e q show ?thesis
    unfolding s r res by blast
qed

theorem candidates_fixed_serviced_once_per_entry_witness:
  "result (run_diskpart_script (disk_machine [''0'', ''1''] []) disk_list_script scenario_disks)
     = Inr scenario_listing
   \<and> servicable_disk_ids ''Foreign'' scenario_listing = [''0'', ''1'']
   \<and> rechecked (events (service_disks_with_status (disk_machine [''0'', ''1''] []) ''Foreign''
        import_fmt False ''Importing %s'' None scenario_disks)) = [''0'', ''1'']
   \<and> count_list (serviced (events (service_disks_with_status (disk_machine [''0'', ''1''] [])
        ''Foreign'' import_fmt False ''Importing %s'' None scenario_disks))) ''0'' \<le> 1
   \<and> count_list (serviced (events (service_disks_with_status (disk_machine [''0'', ''1''] [])
        ''Foreign'' import_fmt False ''Importing %s'' None scenario_disks))) ''1'' \<le> 1"
proof -
  let ?m = "disk_machine [''0'', ''1''] []"
  have a: "result (run_diskpart_script ?m disk_list_script scenario_disks) = Inr scenario_listing"
    by code_simp
  have b: "servicable_disk_ids ''Foreign'' scenario_listing = [''0'', ''1'']"
    by code_simp
  from candidates_fixed_serviced_once_per_entry
         [OF a, of "''Foreign''" import_fmt False "''Importing %s''" None]
    scenario_result
  have "rechecked (events (service_disks_with_status ?m ''Foreign''
          import_fmt False ''Importing %s'' None scenario_disks)) = [''0'', ''1'']"
    and "\<forall>d. count_list (serviced (events (service_disks_with_status ?m
          ''Foreign'' import_fmt False ''Importing %s'' None scenario_disks))) d
            \<le> count_list [''0'', ''1''] d"
    by (simp_all add: b ids_to_skip_def)
  moreover have "count_list [''0'', ''1''] ''0'' = 1" "count_list [''0'', ''1''] ''1'' = 1"
    by simp_all
  ultimately show ?thesis using a b by metis
qed

subsection \<open>Re-checking before each operation\<close>

lemma script_runs_append [simp]: "script_runs (xs @ ys) = script_runs xs @ script_runs ys"
  by (simp add: script_runs_def)

lemma script_runs_calls [simp]: "list_all is_call evs \<Longrightarrow> script_runs evs = []"
  by (simp add: script_runs_def)

lemma script_runs_Cons [simp]:
  "script_runs (ev # evs) = (if is_run ev then ev # script_runs evs else script_runs evs)"
  by (simp add: script_runs_def)

lemma script_runs_Nil [simp]: "script_runs [] = []"
  by (simp add: script_runs_def)

lemma preceded_append:
  "preceded status prev (xs @ ys) =
     (preceded status prev xs \<and> preceded status (if xs = [] then prev else Some (last xs)) ys)"
  by (induction xs arbitrary: prev) auto

lemma preceded_service:
  "preceded status prev (pre @ Service d sc r # post) \<Longrightarrow>
   \<exists>l. (if pre = [] then prev else Some (last pre)) = Some (Recheck d (Inr l))
       \<and> list_ex (curr_disk_entry d status) (split_on CRLF l)"
  by (auto simp: preceded_append allowed_after_def split: option.splits event.splits sum.splits if_splits)

lemma service_disk_runs:
  "script_runs (events (service_disk c status fmt soe lm d w)) =
     Recheck d (result (run_diskpart_script c disk_list_script w))
       # (case result (run_diskpart_script c disk_list_script w) of
            Inl e \<Rightarrow> []
          | Inr l \<Rightarrow>
              if list_ex (curr_disk_entry d status) (split_on CRLF l)
              then (case py_format fmt d of
                      Inl e \<Rightarrow> []
                    | Inr sc \<Rightarrow>
                        [Service d sc
                           (result (run_diskpart_script c sc
                                      (world (run_diskpart_script c disk_list_script w))))])
              else [])"
  by (simp add: service_disk_events service_matched_events run_diskpart_script_calls
        split: sum.splits)

lemma service_disk_preceded:
  "preceded status prev (script_runs (events (service_disk c status fmt soe lm d w)))"
  by (simp add: service_disk_runs allowed_after_def split: sum.splits)

lemma service_disk_runs_nonempty:
  "script_runs (events (service_disk c status fmt soe lm d w)) \<noteq> []"
  by (simp add: service_disk_runs)

lemma service_loop_preceded:
  "preceded status prev (script_runs (events (service_loop c status fmt soe lm skip ds w)))"
proof (induction ds arbitrary: w prev)
  case Nil
  then show ?case by (simp add: parts)
next
  case (Cons d ds)
  show ?case
    using Cons.IH service_disk_preceded [of status prev c fmt soe lm d w]
      service_disk_runs_nonempty [of c status fmt soe lm d w]
    by (simp add: service_loop_Cons_events preceded_append split: sum.splits)
qed

lemma pass_runs:
  "script_runs (events (service_disks_with_status c status fmt soe lm skip w)) =
     ListDisks (result (run_diskpart_script c disk_list_script w))
       # (case result (run_diskpart_script c disk_list_script w) of
            Inl e \<Rightarrow> []
          | Inr l \<Rightarrow> script_runs (events (service_loop c status fmt soe lm (ids_to_skip skip)
                        (servicable_disk_ids status l)
                        (world (run_diskpart_script c disk_list_script w)))))"
  by (simp add: service_disks_with_status_events run_diskpart_script_calls split: sum.splits)

lemma pass_preceded:
  "preceded status None (script_runs (events (service_disks_with_status c status fmt soe lm skip w)))"
  by (simp add: pass_runs service_loop_preceded allowed_after_def split: sum.splits)

lemma service_disk_not_matched:
  assumes "result (run_diskpart_script c disk_list_script w) = Inr l"
    and "\<not> list_ex (curr_disk_entry d status) (split_on CRLF l)"
  shows "service_disk c status fmt soe lm d w =
           (Inr (), world (run_diskpart_script c disk_list_script w),
            events (run_diskpart_script c disk_list_script w) @ [Recheck d (Inr l)])"
proof -
  have "result (service_disk c status fmt soe lm d w) = Inr ()"
    and "world (service_disk c status fmt soe lm d w)
           = world (run_diskpart_script c disk_list_script w)"
    and "events (service_disk c status fmt soe lm d w)
           = events (run_diskpart_script c disk_list_script w) @ [Recheck d (Inr l)]"
    using assms by (simp_all add: service_disk_def service_lines_eq parts)
  then show ?thesis
    by (cases "service_disk c status fmt soe lm d w") simp
qed

text \<open>
  C2. Among the runs of scripts of a pass, a run of the service script on a disk comes
  right after the re-check of that disk, whose listing has a line that matches the disk
  and the status. A disk whose fresh listing has no such line is skipped silently: the
  body of the loop returns with the events of the listing and the record of the re-check,
  and nothing else. In the scenario of the disks 0 and 1 foreign and 2 online, where the
  import of disk 0 sets the group of 0 and 1 online, the pass returns and its runs are
  the first listing, the re-check of 0, the import of 0, and the re-check of 1: one
  operation, on disk 0, and none on disk 1.
\<close>

theorem recheck_before_each_operation:
  "(\<forall>pre d script r post.
      script_runs (events (service_disks_with_status c status fmt soe lm skip w))
        = pre @ Service d script r # post \<longrightarrow>
      (\<exists>pre' l. pre = pre' @ [Recheck d (Inr l)]
          \<and> list_ex (curr_disk_entry d status) (split_on CRLF l)))
   \<and> (\<forall>d l. result (run_diskpart_script c disk_list_script w) = Inr l
          \<and> \<not> list_ex (curr_disk_entry d status) (split_on CRLF l) \<longrightarrow>
        service_disk c status fmt soe lm d w =
          (Inr (), world (run_diskpart_script c disk_list_script w),
           events (run_diskpart_script c disk_list_script w) @ [Recheck d (Inr l)]))
   \<and> result (service_disks_with_status (disk_machine [''0'', ''1''] []) ''Foreign'' import_fmt
               False ''Importing %s'' None scenario_disks) = Inr ()
   \<and> script_runs (events (service_disks_with_status (disk_machine [''0'', ''1''] [])
        ''Foreign'' import_fmt False ''Importing %s'' None scenario_disks))
       = [ListDisks (Inr scenario_listing), Recheck ''0'' (Inr scenario_listing),
          Service ''0'' (import_script ''0'') (Inr ''imported''),
          Recheck ''1'' (Inr scenario_listing_after)]"
proof (intro conjI allI impI)
  fix pre d script r post
  assume eq: "script_runs (events (service_disks_with_status c status fmt soe lm skip w))
                = pre @ Service d script r # post"
  from pass_preceded [of status c fmt soe lm skip w]
  have "preceded status None (pre @ Service d script r # post)"
    by (simp add: eq)
  from preceded_service [OF this]
  obtain l where ne: "pre \<noteq> []" and l: "last pre = Recheck d (Inr l)"
    and m: "list_ex (curr_disk_entry d status) (split_on CRLF l)"
    by (auto split: if_splits)
  from ne l have "pre = butlast pre @ [Recheck d (Inr l)]"
    by (metis append_butlast_last_id)
  with m show "\<exists>pre' l. pre = pre' @ [Recheck d (Inr l)]
                 \<and> list_ex (curr_disk_entry d status) (split_on CRLF l)"
    by blast
next
  fix d l
  assume "result (run_diskpart_script c disk_list_script w) = Inr l
            \<and> \<not> list_ex (curr_disk_entry d status) (split_on CRLF l)"
  then show "service_disk c status fmt soe lm d w =
          (Inr (), world (run_diskpart_script c disk_list_script w),
           events (run_diskpart_script c disk_list_script w) @ [Recheck d (Inr l)])"
    by (simp add: service_disk_not_matched)
qed (rule scenario_result, rule scenario_runs)

theorem recheck_before_each_operation_witness:
  "script_runs (events (service_disks_with_status (disk_machine [''0'', ''1''] []) ''Foreign''
     import_fmt False ''Importing %s'' None scenario_disks))
   = [ListDisks (Inr scenario_listing), Recheck ''0'' (Inr scenario_listing)]
       @ Service ''0'' (import_script ''0'') (Inr ''imported'')
       # [Recheck ''1'' (Inr scenario_listing_after)]
   \<and> list_ex (curr_disk_entry ''0'' ''Foreign'') (split_on CRLF scenario_listing)
   \<and> \<not> list_ex (curr_disk_entry ''1'' ''Foreign'') (split_on CRLF scenario_listing_after)"
proof -
  let ?E = "events (service_disks_with_status (disk_machine [''0'', ''1''] []) ''Foreign''
              import_fmt False ''Importing %s'' None scenario_disks)"
  have runs: "script_runs ?E
      = [ListDisks (Inr scenario_listing), Recheck ''0'' (Inr scenario_listing)]
          @ Service ''0'' (import_script ''0'') (Inr ''imported'')
          # [Recheck ''1'' (Inr scenario_listing_after)]"
    by (simp add: scenario_runs)
  from recheck_before_each_operation [of "disk_machine [''0'', ''1''] []" "''Foreign''"
      import_fmt False "''Importing %s''" None scenario_disks] runs
  obtain pre' l where "[ListDisks (Inr scenario_listing), Recheck ''0'' (Inr scenario_listing)]
        = pre' @ [Recheck ''0'' (Inr l)]"
    and m: "list_ex (curr_disk_entry ''0'' ''Foreign'') (split_on CRLF l)"
    by blast
  then have "l = scenario_listing"
    by (cases pre') (auto simp: Cons_eq_append_conv)
  with m have "list_ex (curr_disk_entry ''0'' ''Foreign'') (split_on CRLF scenario_listing)"
    by simp
  moreover have "\<not> list_ex (curr_disk_entry ''1'' ''Foreign'') (split_on CRLF scenario_listing_after)"
    by code_simp
  ultimately show ?thesis using runs by simp
qed

subsection \<open>Failing operations\<close>

lemma stops_no_failure:
  "\<forall>ev\<in>set xs. failure_of ev = None \<Longrightarrow> stops_at_failure r (xs @ ys) = stops_at_failure r ys"
  by (induction xs) auto

lemma stops_failure:
  "stops_at_failure r (pre @ Service d sc (Inl e) # post) \<Longrightarrow> post = [] \<and> r = Inl e"
  by (induction pre) auto

lemma calls_no_failures: "list_all is_call evs \<Longrightarrow> \<forall>ev\<in>set evs. failure_of ev = None"
  using calls_no_failure by blast

lemma run_no_failures: "\<forall>ev\<in>set (events (run_diskpart_script c sc w)). failure_of ev = None"
  by (rule calls_no_failures) (rule run_diskpart_script_calls)

lemma service_disk_stops:
  "stops_at_failure (result (service_disk c status fmt False lm d w))
     (events (service_disk c status fmt False lm d w))"
  by (simp add: service_disk_events service_disk_result service_matched_events
        service_matched_result stops_no_failure run_no_failures split: sum.splits)

lemma run_no_failure:
  "ev \<in> set (events (run_diskpart_script c sc w)) \<Longrightarrow> failure_of ev = None"
  by (rule calls_no_failure [OF run_diskpart_script_calls])

lemma service_disk_returned:
  "result (service_disk c status fmt False lm d w) = Inr u \<Longrightarrow>
   \<forall>ev\<in>set (events (service_disk c status fmt False lm d w)). failure_of ev = None"
  by (auto simp: service_disk_events service_disk_result service_matched_events
        service_matched_result run_no_failure split: sum.splits if_splits)

lemma service_loop_stops:
  "stops_at_failure (result (service_loop c status fmt False lm skip ds w))
     (events (service_loop c status fmt False lm skip ds w))"
proof (induction ds arbitrary: w)
  case Nil
  then show ?case by (simp add: parts)
next
  case (Cons d ds)
  show ?case
  proof (cases "d \<in> set skip")
    case True
    with Cons.IH [of w] show ?thesis
      by (simp add: service_loop_Cons_events service_loop_Cons_result)
  next
    case False
    show ?thesis
    proof (cases "result (service_disk c status fmt False lm d w)")
      case (Inl e)
      with False service_disk_stops [of c status fmt lm d w] show ?thesis
        by (simp add: service_loop_Cons_events service_loop_Cons_result)
    next
      case (Inr u)
      with False service_disk_returned [OF Inr] Cons.IH show ?thesis
        by (simp add: service_loop_Cons_events service_loop_Cons_result stops_no_failure)
    qed
  qed
qed

lemma pass_stops:
  "stops_at_failure (result (service_disks_with_status c status fmt False lm skip w))
     (events (service_disks_with_status c status fmt False lm skip w))"
  by (simp add: service_disks_with_status_events service_disks_with_status_result
        stops_no_failure run_no_failures service_loop_stops split: sum.splits)

lemma failures_logged_append:
  "failures_logged status xs \<Longrightarrow> failures_logged status ys \<Longrightarrow> failures_logged status (xs @ ys)"
  by (induction xs) (auto split: option.splits list.splits)

lemma calls_logged: "list_all is_call evs \<Longrightarrow> failures_logged status evs"
  by (induction evs rule: serviced.induct) simp_all

lemma failures_logged_failure:
  "failures_logged status (pre @ Service d sc (Inl e) # post) \<Longrightarrow>
   \<exists>post'. post = Log Warn service_failed_msg [Str d, Str status, Str sc, Exc e] # post'"
  by (induction pre) (auto split: list.splits)

lemma service_matched_logged:
  "failures_logged status (events (service_matched c status fmt True lm d w))"
proof (cases "py_format fmt d")
  case (Inl e)
  then show ?thesis by (simp add: service_matched_events)
next
  case (Inr sc)
  have "failures_logged status
          (events (run_diskpart_script c sc w)
             @ Service d sc (result (run_diskpart_script c sc w))
             # (case result (run_diskpart_script c sc w) of
                  Inl ex \<Rightarrow> [Log Warn service_failed_msg [Str d, Str status, Str sc, Exc ex]]
                | Inr out \<Rightarrow> []))"
    by (rule failures_logged_append)
       (simp_all add: calls_logged run_diskpart_script_calls split: sum.splits)
  with Inr show ?thesis by (simp add: service_matched_events cong: sum.case_cong)
qed

lemma service_disk_logged:
  "failures_logged status (events (service_disk c status fmt True lm d w))"
  unfolding service_disk_events
  by (rule failures_logged_append)
     (simp_all add: calls_logged run_diskpart_script_calls service_matched_logged
        split: sum.splits)

lemma service_loop_logged:
  "failures_logged status (events (service_loop c status fmt True lm skip ds w))"
proof (induction ds arbitrary: w)
  case Nil
  then show ?case by (simp add: parts)
next
  case (Cons d ds)
  show ?case
  proof (cases "d \<in> set skip")
    case True
    with Cons.IH [of w] show ?thesis
      by (simp add: service_loop_Cons_events skipping_msg_def)
  next
    case False
    have "failures_logged status
            (events (service_disk c status fmt True lm d w)
               @ (case result (service_disk c status fmt True lm d w) of
                    Inl e \<Rightarrow> []
                  | Inr u \<Rightarrow> events (service_loop c status fmt True lm skip ds
                                       (world (service_disk c status fmt True lm d w)))))"
      by (rule failures_logged_append) (simp_all add: service_disk_logged Cons.IH split: sum.splits)
    with False show ?thesis
      by (simp add: service_loop_Cons_events)
  qed
qed

lemma pass_logged:
  "failures_logged status (events (service_disks_with_status c status fmt True lm skip w))"
  unfolding service_disks_with_status_events
  by (rule failures_logged_append)
     (simp_all add: calls_logged run_diskpart_script_calls service_loop_logged split: sum.splits)

lemma service_disk_aborts:
  "result (service_disk c status fmt True lm d w) = Inl e \<Longrightarrow>
   Recheck d (Inl e) \<in> set (events (service_disk c status fmt True lm d w))
   \<or> py_format fmt d = Inl e"
  by (auto simp: service_disk_events service_disk_result service_matched_result
        split: sum.splits if_splits)

lemma service_loop_aborts:
  "result (service_loop c status fmt True lm skip ds w) = Inl e \<Longrightarrow>
   (\<exists>d. Recheck d (Inl e) \<in> set (events (service_loop c status fmt True lm skip ds w)))
   \<or> (\<exists>d\<in>set ds. py_format fmt d = Inl e)"
proof (induction ds arbitrary: w)
  case Nil
  then show ?case by (simp add: parts)
next
  case (Cons d ds)
  show ?case
  proof (cases "d \<in> set skip")
    case True
    with Cons.prems Cons.IH [of w] show ?thesis
      by (auto simp: service_loop_Cons_events service_loop_Cons_result)
  next
    case False
    show ?thesis
    proof (cases "result (service_disk c status fmt True lm d w)")
      case (Inl e')
      with False Cons.prems have "e' = e"
        by (simp add: service_loop_Cons_result)
      with Inl False service_disk_aborts [of c status fmt lm d w e] show ?thesis
        by (auto simp: service_loop_Cons_events)
    next
      case (Inr u)
      with False Cons.prems Cons.IH [of "world (service_disk c status fmt True lm d w)"]
      show ?thesis
        by (auto simp: service_loop_Cons_events service_loop_Cons_result)
    qed
  qed
qed

lemma pass_aborts:
  "result (service_disks_with_status c status fmt True lm skip w) = Inl e \<Longrightarrow>
   ListDisks (Inl e) \<in> set (events (service_disks_with_status c status fmt True lm skip w))
   \<or> (\<exists>d. Recheck d (Inl e) \<in> set (events (service_disks_with_status c status fmt True lm skip w)))
   \<or> (\<exists>d. py_format fmt d = Inl e)"
proof (cases "result (run_diskpart_script c disk_list_script w)")
  case (Inl e')
  assume "result (service_disks_with_status c status fmt True lm skip w) = Inl e"
  with Inl show ?thesis
    by (simp add: service_disks_with_status_events service_disks_with_status_result)
next
  case (Inr l)
  assume "result (service_disks_with_status c status fmt True lm skip w) = Inl e"
  with Inr have "result (service_loop c status fmt True lm (ids_to_skip skip)
                   (servicable_disk_ids status l)
                   (world (run_diskpart_script c disk_list_script w))) = Inl e"
    by (simp add: service_disks_with_status_result)
  from service_loop_aborts [OF this] Inr show ?thesis
    by (auto simp: service_disks_with_status_events)
qed

text \<open>
  C4. Without \<^verbatim>\<open>skip_on_error\<close>, a service script that fails is the last event of the pass,
  and the pass raises what the script raised: no candidate is re-checked or serviced after
  it. With \<^verbatim>\<open>skip_on_error\<close>, every service script that fails is followed at once by its
  warning; the pass raises only what a listing raised or what filling the disk into the
  script raised, never what a service script raised; and when it returns, the first
  listing having given \<open>l\<close>, it has re-checked every candidate of \<open>l\<close> that is not to be
  skipped, in order.
\<close>

theorem operation_failure_policy:
  "(\<not> skip_on_error \<longrightarrow>
      (\<forall>pre d script e post.
          events (service_disks_with_status c status fmt skip_on_error lm skip w)
            = pre @ Service d script (Inl e) # post \<longrightarrow>
          post = [] \<and> result (service_disks_with_status c status fmt skip_on_error lm skip w) = Inl e))
   \<and> (skip_on_error \<longrightarrow>
      (\<forall>pre d script e post.
          events (service_disks_with_status c status fmt skip_on_error lm skip w)
            = pre @ Service d script (Inl e) # post \<longrightarrow>
          (\<exists>post'. post = Log Warn service_failed_msg [Str d, Str status, Str script, Exc e] # post'))
      \<and> (\<forall>e. result (service_disks_with_status c status fmt skip_on_error lm skip w) = Inl e \<longrightarrow>
            ListDisks (Inl e) \<in> set (events (service_disks_with_status c status fmt skip_on_error lm skip w))
            \<or> (\<exists>d. Recheck d (Inl e)
                     \<in> set (events (service_disks_with_status c status fmt skip_on_error lm skip w)))
            \<or> (\<exists>d. py_format fmt d = Inl e))
      \<and> (\<forall>l. result (run_diskpart_script c disk_list_script w) = Inr l \<longrightarrow>
            result (service_disks_with_status c status fmt skip_on_error lm skip w) = Inr () \<longrightarrow>
            rechecked (events (service_disks_with_status c status fmt skip_on_error lm skip w))
              = filter (\<lambda>d. d \<notin> set (ids_to_skip skip)) (servicable_disk_ids status l)))"
proof (intro conjI impI allI)
  fix pre d script e post
  assume "\<not> skip_on_error"
    and "events (service_disks_with_status c status fmt skip_on_error lm skip w)
           = pre @ Service d script (Inl e) # post"
  with pass_stops [of c status fmt lm skip w]
  have "stops_at_failure (result (service_disks_with_status c status fmt skip_on_error lm skip w))
          (pre @ Service d script (Inl e) # post)"
    by simp
  from stops_failure [OF this]
  show "post = []"
    and "result (service_disks_with_status c status fmt skip_on_error lm skip w) = Inl e"
    by simp_all
next
  fix pre d script e post
  assume "skip_on_error"
    and "events (service_disks_with_status c status fmt skip_on_error lm skip w)
           = pre @ Service d script (Inl e) # post"
  with pass_logged [of status c fmt lm skip w]
  have "failures_logged status (pre @ Service d script (Inl e) # post)"
    by simp
  from failures_logged_failure [OF this]
  show "\<exists>post'. post = Log Warn service_failed_msg [Str d, Str status, Str script, Exc e] # post'" .
next
  fix e
  assume "skip_on_error"
    and "result (service_disks_with_status c status fmt skip_on_error lm skip w) = Inl e"
  with pass_aborts [of c status fmt lm skip w e]
  show "ListDisks (Inl e) \<in> set (events (service_disks_with_status c status fmt skip_on_error lm skip w))
        \<or> (\<exists>d. Recheck d (Inl e)
                 \<in> set (events (service_disks_with_status c status fmt skip_on_error lm skip w)))
        \<or> (\<exists>d. py_format fmt d = Inl e)"
    by simp
next
  fix l
  assume "result (run_diskpart_script c disk_list_script w) = Inr l"
    and "result (service_disks_with_status c status fmt skip_on_error lm skip w) = Inr ()"
  then show "rechecked (events (service_disks_with_status c status fmt skip_on_error lm skip w))
               = filter (\<lambda>d. d \<notin> set (ids_to_skip skip)) (servicable_disk_ids status l)"
    using service_loop_ids [of c status fmt skip_on_error lm "ids_to_skip skip"
            "servicable_disk_ids status l" "world (run_diskpart_script c disk_list_script w)"]
    by (simp add: pass_ids service_disks_with_status_result)
qed

theorem operation_failure_policy_witness:
  "last (events (service_disks_with_status (disk_machine [] [''0'']) ''Foreign'' import_fmt
           False ''Importing %s'' None scenario_disks))
     = Service ''0'' (import_script ''0'') (Inl import_failed)
   \<and> result (service_disks_with_status (disk_machine [] [''0'']) ''Foreign'' import_fmt
           False ''Importing %s'' None scenario_disks) = Inl import_failed
   \<and> serviced (events (service_disks_with_status (disk_machine [] [''0'']) ''Foreign'' import_fmt
           False ''Importing %s'' None scenario_disks)) = [''0'']
   \<and> result (service_disks_with_status (disk_machine [] [''0'']) ''Foreign'' import_fmt
           True ''Importing %s'' None scenario_disks) = Inr ()
   \<and> rechecked (events (service_disks_with_status (disk_machine [] [''0'']) ''Foreign'' import_fmt
           True ''Importing %s'' None scenario_disks)) = [''0'', ''1'']
   \<and> serviced (events (service_disks_with_status (disk_machine [] [''0'']) ''Foreign'' import_fmt
           True ''Importing %s'' None scenario_disks)) = [''0'', ''1'']"
proof -
  let ?m = "disk_machine [] [''0'']"
  let ?F = "service_disks_with_status ?m ''Foreign'' import_fmt False ''Importing %s'' None
              scenario_disks"
  let ?T = "service_disks_with_status ?m ''Foreign'' import_fmt True ''Importing %s'' None
              scenario_disks"
  have ne: "events ?F \<noteq> []"
    by code_simp
  have la: "last (events ?F) = Service ''0'' (import_script ''0'') (Inl import_failed)"
    by code_simp
  from ne la have "events ?F
      = butlast (events ?F) @ Service ''0'' (import_script ''0'') (Inl import_failed) # []"
    by (metis append_butlast_last_id)
  with operation_failure_policy [of False ?m "''Foreign''" import_fmt "''Importing %s''" None
      scenario_disks]
  have rf: "result ?F = Inl import_failed"
    by blast
  have sf: "serviced (events ?F) = [''0'']"
    by code_simp
  have l: "result (run_diskpart_script ?m disk_list_script scenario_disks) = Inr scenario_listing"
    by code_simp
  have rt: "result ?T = Inr ()"
    by code_simp
  have b: "servicable_disk_ids ''Foreign'' scenario_listing = [''0'', ''1'']"
    by code_simp
  from operation_failure_policy [of True ?m "''Foreign''" import_fmt "''Importing %s''" None
      scenario_disks] l rt
  have "rechecked (events ?T)
          = filter (\<lambda>d. d \<notin> set (ids_to_skip None)) (servicable_disk_ids ''Foreign'' scenario_listing)"
    by blast
  then have ct: "rechecked (events ?T) = [''0'', ''1'']"
    by (simp add: b ids_to_skip_def)
  have st: "serviced (events ?T) = [''0'', ''1'']"
    by code_simp
  from la rf sf rt ct st show ?thesis by blast
qed

end
